theory Spec2Isabelle
  imports Complex_Main "HOL-Library.Multiset"
begin

section \<open>The scheduling engine of models.py and scheduler.py\<close>

text \<open>
  The Python classes \<^verbatim>\<open>Employee\<close> and \<^verbatim>\<open>Task\<close> are mutable objects that are shared by
  reference: a task's \<^verbatim>\<open>assigned_employee\<close> points at an employee object, and the lists of the
  schedule hold references as well. The model therefore keeps an explicit store. A reference
  is a natural number; two references are the same object iff they are the same number.
  Python floats are modelled as reals (rounding, infinities and NaN are left out), Python
  ints as \<open>int\<close>, a \<^verbatim>\<open>Set[str]\<close> as a set of strings, and a \<^verbatim>\<open>datetime\<close> as an integer time
  stamp: all deadlines are taken to be naive datetimes (or all aware ones), which compare
  with each other; comparing a naive with an aware one raises \<^verbatim>\<open>TypeError\<close> in Python as
  well, and the model leaves that case out.
\<close>

type_synonym ref = nat

record Employee =
  emp_id :: int
  emp_name :: string
  training :: "string set"
  rank :: int
  position :: string
  max_hours :: real
  current_hours :: real

record Task =
  task_id :: int
  task_name :: string
  required_training :: "string set"
  duration :: real
  priority :: int
  min_rank :: int
  deadline :: "int option"
  assigned_employee :: "ref option"

text \<open>
  The store together with the two lists of \<^verbatim>\<open>Schedule\<close> and the dictionary
  \<^verbatim>\<open>AutoScheduler.unassigned_reasons\<close>. The period and the creation time of a schedule are
  never read by the engine and are left out.
\<close>

record state =
  eheap :: "ref \<Rightarrow> Employee"
  theap :: "ref \<Rightarrow> Task"
  employees :: "ref list"
  tasks :: "ref list"
  unassigned_reasons :: "int \<rightharpoonup> string list"

datatype py_error = TypeError | ZeroDivisionError | IndexError

subsection \<open>Employee\<close>

definition has_training :: "Employee \<Rightarrow> string set \<Rightarrow> bool" where
  "has_training e required \<longleftrightarrow> required \<subseteq> training e"

definition can_work_hours :: "Employee \<Rightarrow> real \<Rightarrow> bool" where
  "can_work_hours e hours \<longleftrightarrow> current_hours e + hours \<le> max_hours e"

definition assign_hours :: "Employee \<Rightarrow> real \<Rightarrow> Employee" where
  "assign_hours e hours = e\<lparr>current_hours := current_hours e + hours\<rparr>"

definition reset_hours :: "Employee \<Rightarrow> Employee" where
  "reset_hours e = e\<lparr>current_hours := 0\<rparr>"

definition available_hours :: "Employee \<Rightarrow> real" where
  "available_hours e = max 0 (max_hours e - current_hours e)"

text \<open>
  \<^verbatim>\<open>@dataclass\<close> generates \<^verbatim>\<open>__eq__\<close>: two employees are \<^verbatim>\<open>==\<close> when the tuples of their
  fields are equal, whether or not they are the same object.
\<close>

definition employee_eq :: "Employee \<Rightarrow> Employee \<Rightarrow> bool" where
  "employee_eq a b \<longleftrightarrow>
     (emp_id a, emp_name a, training a, rank a, position a, max_hours a, current_hours a)
   = (emp_id b, emp_name b, training b, rank b, position b, max_hours b, current_hours b)"

subsection \<open>Task\<close>

definition is_assigned :: "Task \<Rightarrow> bool" where
  "is_assigned t \<longleftrightarrow> assigned_employee t \<noteq> None"

definition can_be_assigned_to :: "Task \<Rightarrow> Employee \<Rightarrow> bool" where
  "can_be_assigned_to t e \<longleftrightarrow>
     has_training e (required_training t) \<and> can_work_hours e (duration t) \<and> rank e \<ge> min_rank t"

text \<open>\<^verbatim>\<open>Task.assign_to\<close>: the task \<open>tr\<close> and the employee \<open>er\<close> are given by reference.\<close>

definition assign_to :: "state \<Rightarrow> ref \<Rightarrow> ref \<Rightarrow> bool \<times> state" where
  "assign_to s tr er =
     (if can_be_assigned_to (theap s tr) (eheap s er)
      then (True,
            s\<lparr>eheap := (eheap s)(er := assign_hours (eheap s er) (duration (theap s tr))),
              theap := (theap s)(tr := (theap s tr)\<lparr>assigned_employee := Some er\<rparr>)\<rparr>)
      else (False, s))"

text \<open>
  \<^verbatim>\<open>Task.unassign\<close>. An \<^verbatim>\<open>Employee\<close> object is always truthy (the dataclass defines neither
  \<^verbatim>\<open>__bool__\<close> nor \<^verbatim>\<open>__len__\<close>), so the test is for \<^verbatim>\<open>None\<close>.
\<close>

definition unassign :: "ref \<Rightarrow> state \<Rightarrow> state" where
  "unassign tr s =
     (case assigned_employee (theap s tr) of
        None \<Rightarrow> s
      | Some er \<Rightarrow>
          s\<lparr>eheap := (eheap s)(er := (eheap s er)\<lparr>current_hours :=
                         current_hours (eheap s er) - duration (theap s tr)\<rparr>),
            theap := (theap s)(tr := (theap s tr)\<lparr>assigned_employee := None\<rparr>)\<rparr>)"

subsection \<open>Schedule\<close>

definition get_assigned_tasks :: "state \<Rightarrow> ref list" where
  "get_assigned_tasks s = filter (\<lambda>tr. is_assigned (theap s tr)) (tasks s)"

definition get_unassigned_tasks :: "state \<Rightarrow> ref list" where
  "get_unassigned_tasks s = filter (\<lambda>tr. \<not> is_assigned (theap s tr)) (tasks s)"

text \<open>
  \<^verbatim>\<open>get_employee_tasks\<close> compares with \<^verbatim>\<open>==\<close>; \<^verbatim>\<open>None == employee\<close> is false.
\<close>

definition get_employee_tasks :: "state \<Rightarrow> ref \<Rightarrow> ref list" where
  "get_employee_tasks s er =
     filter (\<lambda>tr. case assigned_employee (theap s tr) of
                    None \<Rightarrow> False
                  | Some a \<Rightarrow> employee_eq (eheap s a) (eheap s er)) (tasks s)"

definition reset_employee :: "ref \<Rightarrow> state \<Rightarrow> state" where
  "reset_employee er s = s\<lparr>eheap := (eheap s)(er := reset_hours (eheap s er))\<rparr>"

text \<open>\<^verbatim>\<open>Schedule.reset\<close>: first the loop over the employees, then the loop over the tasks.\<close>

definition reset :: "state \<Rightarrow> state" where
  "reset s = fold unassign (tasks s) (fold reset_employee (employees s) s)"

subsection \<open>Scoring\<close>

definition py_div :: "real \<Rightarrow> real \<Rightarrow> py_error + real" where
  "py_div a b = (if b = 0 then Inl ZeroDivisionError else Inr (a / b))"

definition rank_score :: "int \<Rightarrow> real" where
  "rank_score rank_diff =
     (if rank_diff = 0 then 50
      else if rank_diff \<le> 2 then 40
      else if rank_diff \<le> 4 then 20
      else 10)"

definition score_employee_for_task :: "Task \<Rightarrow> Employee \<Rightarrow> py_error + real" where
  "score_employee_for_task t e =
     (let score = 0 + rank_score (rank e - min_rank t) in
      case py_div (available_hours e) (max_hours e) of
        Inl err \<Rightarrow> Inl err
      | Inr availability_ratio \<Rightarrow>
          (let score = score + availability_ratio * 30 in
           case py_div (current_hours e) (max_hours e) of
             Inl err \<Rightarrow> Inl err
           | Inr q \<Rightarrow> (let workload_ratio = 1 - q in Inr (score + workload_ratio * 20))))"

subsection \<open>Python's sort\<close>

text \<open>
  \<^verbatim>\<open>sorted\<close> and \<^verbatim>\<open>list.sort\<close> are stable comparison sorts that only call \<^verbatim>\<open><\<close> on the
  keys, and an exception raised by \<^verbatim>\<open><\<close> leaves the sort. They are modelled by a stable
  insertion sort over a comparison that may raise: the new element is compared with the
  elements of the sorted prefix and put in front of the first one it is less than. Any
  comparison sort has to compare the elements that end up next to each other, so which
  stable comparison sort is run changes neither the result nor whether a comparison that
  raises is met; for the task keys this is lemma \<open>sort_tasks_raises_iff\<close> below, whose
  condition does not depend on the order of the list.
\<close>

fun py_insert :: "('a \<Rightarrow> 'a \<Rightarrow> py_error + bool) \<Rightarrow> 'a \<Rightarrow> 'a list \<Rightarrow> py_error + 'a list" where
  "py_insert lt x [] = Inr [x]"
| "py_insert lt x (y # ys) =
     (case lt x y of
        Inl err \<Rightarrow> Inl err
      | Inr True \<Rightarrow> Inr (x # y # ys)
      | Inr False \<Rightarrow> (case py_insert lt x ys of Inl err \<Rightarrow> Inl err | Inr zs \<Rightarrow> Inr (y # zs)))"

fun py_sort_from :: "('a \<Rightarrow> 'a \<Rightarrow> py_error + bool) \<Rightarrow> 'a list \<Rightarrow> 'a list \<Rightarrow> py_error + 'a list" where
  "py_sort_from lt acc [] = Inr acc"
| "py_sort_from lt acc (x # xs) =
     (case py_insert lt x acc of Inl err \<Rightarrow> Inl err | Inr acc' \<Rightarrow> py_sort_from lt acc' xs)"

definition py_sorted :: "('a \<Rightarrow> 'a \<Rightarrow> py_error + bool) \<Rightarrow> 'a list \<Rightarrow> py_error + 'a list" where
  "py_sorted lt xs = py_sort_from lt [] xs"

text \<open>
  With \<^verbatim>\<open>reverse=True\<close> the list is reversed, sorted, and reversed again, which keeps
  elements with equal keys in their original order.
\<close>

definition py_sorted_reverse :: "('a \<Rightarrow> 'a \<Rightarrow> py_error + bool) \<Rightarrow> 'a list \<Rightarrow> py_error + 'a list" where
  "py_sorted_reverse lt xs =
     (case py_sorted lt (rev xs) of Inl err \<Rightarrow> Inl err | Inr ys \<Rightarrow> Inr (rev ys))"

text \<open>A list comprehension whose body may raise.\<close>

fun py_map :: "('a \<Rightarrow> py_error + 'b) \<Rightarrow> 'a list \<Rightarrow> py_error + 'b list" where
  "py_map f [] = Inr []"
| "py_map f (x # xs) =
     (case f x of
        Inl err \<Rightarrow> Inl err
      | Inr y \<Rightarrow> (case py_map f xs of Inl err \<Rightarrow> Inl err | Inr ys \<Rightarrow> Inr (y # ys)))"

definition float_lt :: "real \<Rightarrow> real \<Rightarrow> py_error + bool" where
  "float_lt a b = Inr (a < b)"

subsection \<open>AutoScheduler: ordering the tasks\<close>

text \<open>
  The second component of the sort key is the deadline, a \<^verbatim>\<open>datetime\<close>, or
  \<^verbatim>\<open>float('inf')\<close> when the task has none.
\<close>

datatype deadline_key = At int | Inf

definition sort_key :: "Task \<Rightarrow> int \<times> deadline_key" where
  "sort_key t = (- priority t, case deadline t of Some d \<Rightarrow> At d | None \<Rightarrow> Inf)"

text \<open>
  \<^verbatim>\<open><\<close> on the key tuples: the first components that differ (by \<^verbatim>\<open>==\<close>) are compared with
  \<^verbatim>\<open><\<close>. A \<^verbatim>\<open>datetime\<close> is never \<^verbatim>\<open>==\<close> to a float, and \<^verbatim>\<open><\<close> between a \<^verbatim>\<open>datetime\<close>
  and a float raises \<^verbatim>\<open>TypeError\<close>.
\<close>

fun deadline_lt :: "deadline_key \<Rightarrow> deadline_key \<Rightarrow> py_error + bool" where
  "deadline_lt (At a) (At b) = Inr (a < b)"
| "deadline_lt Inf Inf = Inr False"
| "deadline_lt (At a) Inf = Inl TypeError"
| "deadline_lt Inf (At b) = Inl TypeError"

definition key_lt :: "int \<times> deadline_key \<Rightarrow> int \<times> deadline_key \<Rightarrow> py_error + bool" where
  "key_lt k1 k2 =
     (if fst k1 \<noteq> fst k2 then Inr (fst k1 < fst k2) else deadline_lt (snd k1) (snd k2))"

definition sort_tasks_by_priority :: "state \<Rightarrow> py_error + ref list" where
  "sort_tasks_by_priority s =
     (case py_sorted (\<lambda>a b. key_lt (sort_key (theap s a)) (sort_key (theap s b))) (tasks s) of
        Inl err \<Rightarrow> Inl err
      | Inr sorted_tasks \<Rightarrow> Inr sorted_tasks)"

subsection \<open>AutoScheduler: choosing an employee\<close>

definition get_eligible_employees :: "state \<Rightarrow> ref \<Rightarrow> ref list" where
  "get_eligible_employees s tr =
     filter (\<lambda>er. can_be_assigned_to (theap s tr) (eheap s er)) (employees s)"

definition scored :: "state \<Rightarrow> ref \<Rightarrow> ref \<Rightarrow> py_error + ref \<times> real" where
  "scored s tr er =
     (case score_employee_for_task (theap s tr) (eheap s er) of
        Inl err \<Rightarrow> Inl err
      | Inr v \<Rightarrow> Inr (er, v))"

definition select_best_employee :: "state \<Rightarrow> ref \<Rightarrow> ref list \<Rightarrow> py_error + ref" where
  "select_best_employee s tr eligible_employees =
     (case py_map (scored s tr) eligible_employees of
        Inl err \<Rightarrow> Inl err
      | Inr scored_employees \<Rightarrow>
          (case py_sorted_reverse (\<lambda>x y. float_lt (snd x) (snd y)) scored_employees of
             Inl err \<Rightarrow> Inl err
           | Inr [] \<Rightarrow> Inl IndexError
           | Inr (best # _) \<Rightarrow> Inr (fst best)))"

definition assign_task :: "state \<Rightarrow> ref \<Rightarrow> py_error + bool \<times> state" where
  "assign_task s tr =
     (let eligible_employees = get_eligible_employees s tr in
      if eligible_employees = [] then Inr (False, s)
      else case select_best_employee s tr eligible_employees of
             Inl err \<Rightarrow> Inl err
           | Inr best_employee \<Rightarrow> Inr (assign_to s tr best_employee))"

subsection \<open>AutoScheduler: explaining a rejection\<close>

text \<open>
  What Python's runtime decides is a parameter of the model: the order in which a set of
  strings is iterated (it follows the hash values, which change from run to run), the text
  of a number inside an f-string, and \<^verbatim>\<open>round(x, 2)\<close>.
\<close>

record pyenv =
  set_order :: "string set \<Rightarrow> string list"
  str_float :: "real \<Rightarrow> string"
  str_int :: "int \<Rightarrow> string"
  round2 :: "real \<Rightarrow> real"

fun join :: "string \<Rightarrow> string list \<Rightarrow> string" where
  "join sep [] = []"
| "join sep [x] = x"
| "join sep (x # y # ys) = x @ sep @ join sep (y # ys)"

definition get_unassignment_reasons :: "pyenv \<Rightarrow> Task \<Rightarrow> Employee \<Rightarrow> string list" where
  "get_unassignment_reasons env t e =
     (if \<not> has_training e (required_training t)
      then [''Missing required training: ''
              @ join '', '' (set_order env (required_training t - training e))]
      else [])
   @ (if \<not> can_work_hours e (duration t)
      then [''Insufficient hours available ('' @ str_float env (available_hours e)
              @ ''h available, '' @ str_float env (duration t) @ ''h needed)'']
      else [])
   @ (if rank e < min_rank t
      then [''Rank too low (rank '' @ str_int env (rank e) @ '', minimum ''
              @ str_int env (min_rank t) @ '' required)'']
      else [])"

definition get_all_unassignment_reasons :: "pyenv \<Rightarrow> state \<Rightarrow> ref \<Rightarrow> string list" where
  "get_all_unassignment_reasons env s tr =
     (if employees s = [] then [''No employees available'']
      else let all_reasons =
                 (\<Union>er \<in> set (employees s). set (get_unassignment_reasons env (theap s tr) (eheap s er)))
           in if all_reasons = {}
              then [''Unknown reason (this shouldn'' @ [CHR 0x27] @ ''t happen)'']
              else set_order env all_reasons)"

subsection \<open>AutoScheduler: the pass\<close>

fun schedule_loop :: "pyenv \<Rightarrow> ref list \<Rightarrow> state \<Rightarrow> py_error + state" where
  "schedule_loop env [] s = Inr s"
| "schedule_loop env (tr # trs) s =
     (case assign_task s tr of
        Inl err \<Rightarrow> Inl err
      | Inr (ok, s') \<Rightarrow>
          schedule_loop env trs
            (if ok then s'
             else s'\<lparr>unassigned_reasons := (unassigned_reasons s')
                      (task_id (theap s' tr) \<mapsto> get_all_unassignment_reasons env s' tr)\<rparr>))"

text \<open>The state in which the pass starts: after \<^verbatim>\<open>reset()\<close> and \<^verbatim>\<open>unassigned_reasons.clear()\<close>.\<close>

definition begin_pass :: "state \<Rightarrow> state" where
  "begin_pass s = (reset s)\<lparr>unassigned_reasons := Map.empty\<rparr>"

definition schedule_all :: "pyenv \<Rightarrow> state \<Rightarrow> py_error + bool \<times> state" where
  "schedule_all env s =
     (let s0 = begin_pass s in
      case sort_tasks_by_priority s0 of
        Inl err \<Rightarrow> Inl err
      | Inr sorted_tasks \<Rightarrow>
          (case schedule_loop env sorted_tasks s0 of
             Inl err \<Rightarrow> Inl err
           | Inr s1 \<Rightarrow> Inr (length (get_unassigned_tasks s1) = 0, s1)))"

subsection \<open>Reports\<close>

record workload =
  w_employee_id :: int
  w_employee_name :: string
  w_position :: string
  w_rank :: int
  w_assigned_hours :: real
  w_max_hours :: real
  w_available_hours :: real
  w_utilization :: real
  w_task_count :: nat
  w_tasks :: "(int \<times> string \<times> real) list"

definition utilization :: "pyenv \<Rightarrow> Employee \<Rightarrow> py_error + real" where
  "utilization env e =
     (if max_hours e > 0
      then (case py_div (current_hours e) (max_hours e) of
              Inl err \<Rightarrow> Inl err
            | Inr q \<Rightarrow> Inr (round2 env (q * 100)))
      else Inr 0)"

definition workload_entry :: "pyenv \<Rightarrow> state \<Rightarrow> ref \<Rightarrow> py_error + workload" where
  "workload_entry env s er =
     (let employee = eheap s er; ts = get_employee_tasks s er in
      case utilization env employee of
        Inl err \<Rightarrow> Inl err
      | Inr u \<Rightarrow>
          Inr \<lparr>w_employee_id = emp_id employee,
               w_employee_name = emp_name employee,
               w_position = position employee,
               w_rank = rank employee,
               w_assigned_hours = current_hours employee,
               w_max_hours = max_hours employee,
               w_available_hours = available_hours employee,
               w_utilization = u,
               w_task_count = length ts,
               w_tasks = map (\<lambda>tr. (task_id (theap s tr), task_name (theap s tr),
                                       duration (theap s tr))) ts\<rparr>)"

definition get_employee_workload_report :: "pyenv \<Rightarrow> state \<Rightarrow> py_error + workload list" where
  "get_employee_workload_report env s =
     (case py_map (workload_entry env s) (employees s) of
        Inl err \<Rightarrow> Inl err
      | Inr report \<Rightarrow>
          py_sorted_reverse (\<lambda>x y. float_lt (w_utilization x) (w_utilization y)) report)"

definition get_completion_rate :: "state \<Rightarrow> py_error + real" where
  "get_completion_rate s =
     (if tasks s = [] then Inr 100
      else case py_div (real (length (get_assigned_tasks s))) (real (length (tasks s))) of
             Inl err \<Rightarrow> Inl err
           | Inr q \<Rightarrow> Inr (q * 100))"

definition is_valid :: "state \<Rightarrow> bool" where
  "is_valid s \<longleftrightarrow>
     list_all (\<lambda>er. \<not> current_hours (eheap s er) > max_hours (eheap s er)) (employees s) \<and>
     list_all (\<lambda>tr. case assigned_employee (theap s tr) of
                       None \<Rightarrow> True
                     | Some a \<Rightarrow> can_be_assigned_to (theap s tr) (eheap s a))
              (get_assigned_tasks s)"

record statistics =
  total_employees :: nat
  total_tasks :: nat
  assigned_tasks :: nat
  unassigned_tasks :: nat
  completion_rate :: real
  total_hours_scheduled :: real
  average_hours_per_employee :: real
  stat_is_valid :: bool

definition total_hours :: "state \<Rightarrow> real" where
  "total_hours s = sum_list (map (\<lambda>er. current_hours (eheap s er)) (employees s))"

definition get_statistics :: "pyenv \<Rightarrow> state \<Rightarrow> py_error + statistics" where
  "get_statistics env s =
     (case get_completion_rate s of
        Inl err \<Rightarrow> Inl err
      | Inr rate \<Rightarrow>
          (case (if employees s \<noteq> []
                 then (case py_div (total_hours s) (real (length (employees s))) of
                         Inl err \<Rightarrow> Inl err
                       | Inr q \<Rightarrow> Inr (round2 env q))
                 else Inr 0) of
             Inl err \<Rightarrow> Inl err
           | Inr average \<Rightarrow>
               Inr \<lparr>total_employees = length (employees s),
                    total_tasks = length (tasks s),
                    assigned_tasks = length (get_assigned_tasks s),
                    unassigned_tasks = length (get_unassigned_tasks s),
                    completion_rate = round2 env rate,
                    total_hours_scheduled = total_hours s,
                    average_hours_per_employee = average,
                    stat_is_valid = is_valid s\<rparr>))"

section \<open>Example inputs\<close>

text \<open>
  The end-to-end scenario of the specification: two employees with 80 hours each, one of
  them trained in Python and databases, and one task of 20 hours that needs both skills.
\<close>

definition alice :: Employee where
  "alice = \<lparr>emp_id = 1, emp_name = ''Alice'', training = {''Python'', ''Database''}, rank = 8,
            position = ''Senior Developer'', max_hours = 80, current_hours = 0\<rparr>"

definition bob :: Employee where
  "bob = \<lparr>emp_id = 2, emp_name = ''Bob'', training = {''Python''}, rank = 5,
          position = ''Developer'', max_hours = 80, current_hours = 0\<rparr>"

definition api_task :: Task where
  "api_task = \<lparr>task_id = 1, task_name = ''API'', required_training = {''Python'', ''Database''},
               duration = 20, priority = 9, min_rank = 5, deadline = None,
               assigned_employee = None\<rparr>"

definition plain_env :: pyenv where
  "plain_env = \<lparr>set_order = (\<lambda>_. []), str_float = (\<lambda>_. []), str_int = (\<lambda>_. []),
                round2 = (\<lambda>x. x)\<rparr>"

definition scenario :: state where
  "scenario = \<lparr>eheap = (\<lambda>_. alice)(1 := bob), theap = (\<lambda>_. api_task), employees = [0, 1],
               tasks = [0], unassigned_reasons = Map.empty\<rparr>"

text \<open>Two tasks of the same priority, one with a deadline and one without.\<close>

definition report_task :: Task where
  "report_task = \<lparr>task_id = 1, task_name = ''Report'', required_training = {}, duration = 8,
                  priority = 5, min_rank = 1, deadline = Some 10, assigned_employee = None\<rparr>"

definition cleanup_task :: Task where
  "cleanup_task = \<lparr>task_id = 2, task_name = ''Cleanup'', required_training = {}, duration = 8,
                   priority = 5, min_rank = 1, deadline = None, assigned_employee = None\<rparr>"

definition mixed_deadlines :: state where
  "mixed_deadlines = \<lparr>eheap = (\<lambda>_. alice), theap = (\<lambda>_. report_task)(1 := cleanup_task),
                      employees = [0], tasks = [0, 1], unassigned_reasons = Map.empty\<rparr>"

text \<open>
  A task that needs two skills nobody has, and a run of the interpreter in which the set
  \<^verbatim>\<open>{'Go', 'Rust'}\<close> is iterated as \<^verbatim>\<open>'Rust', 'Go'\<close>.
\<close>

definition rust_task :: Task where
  "rust_task = \<lparr>task_id = 3, task_name = ''Rewrite'', required_training = {''Go'', ''Rust''},
                duration = 8, priority = 5, min_rank = 1, deadline = None,
                assigned_employee = None\<rparr>"

definition hashed_env :: pyenv where
  "hashed_env =
     plain_env\<lparr>set_order := (\<lambda>S. if S = {''Go'', ''Rust''} then [''Rust'', ''Go''] else [])\<rparr>"

text \<open>
  The schedule as app.py rebuilds it from the session: \<^verbatim>\<open>get_tasks\<close> calls \<^verbatim>\<open>get_employees\<close>
  a second time, so the task is linked to a copy (object 2) of the roster's employee
  (object 0), with the same field values.
\<close>

definition session_copy :: state where
  "session_copy = \<lparr>eheap = (\<lambda>_. alice\<lparr>current_hours := 20\<rparr>)(1 := bob),
                    theap = (\<lambda>_. api_task\<lparr>assigned_employee := Some 2\<rparr>),
                    employees = [0, 1], tasks = [0], unassigned_reasons = Map.empty\<rparr>"

text \<open>Two equally qualified and equally loaded employees, and one with no hours at all.\<close>

definition tied :: state where
  "tied = \<lparr>eheap = (\<lambda>_. alice)(1 := alice\<lparr>emp_id := 2, emp_name := ''Alicia''\<rparr>),
            theap = (\<lambda>_. api_task), employees = [0, 1], tasks = [0],
            unassigned_reasons = Map.empty\<rparr>"

definition zed :: Employee where
  "zed = \<lparr>emp_id = 3, emp_name = ''Zed'', training = {''Python'', ''Database''}, rank = 5,
          position = ''Contractor'', max_hours = 0, current_hours = 0\<rparr>"

definition with_zed :: state where
  "with_zed = \<lparr>eheap = (\<lambda>_. alice)(1 := zed), theap = (\<lambda>_. api_task), employees = [0, 1],
               tasks = [0], unassigned_reasons = Map.empty\<rparr>"

text \<open>
  A schedule built over objects that an earlier pass has left linked, as Example 7 of
  \<^verbatim>\<open>example_usage.py\<close> does: the first task of 50 hours is still linked to the only employee,
  who carries its 50 hours; a second task of 50 hours is new.
\<close>

definition first_half :: Task where
  "first_half = \<lparr>task_id = 1, task_name = ''First half'', required_training = {},
                 duration = 50, priority = 9, min_rank = 1, deadline = None,
                 assigned_employee = Some 0\<rparr>"

definition second_half :: Task where
  "second_half = \<lparr>task_id = 2, task_name = ''Second half'', required_training = {},
                  duration = 50, priority = 5, min_rank = 1, deadline = None,
                  assigned_employee = None\<rparr>"

definition prelinked :: state where
  "prelinked = \<lparr>eheap = (\<lambda>_. alice\<lparr>current_hours := 50\<rparr>),
                theap = (\<lambda>_. first_half)(1 := second_half),
                employees = [0], tasks = [0, 1], unassigned_reasons = Map.empty\<rparr>"

section \<open>Notions used in the proofs\<close>

text \<open>
  What no operation of the engine changes: the two lists, every employee's \<^verbatim>\<open>max_hours\<close>
  and every task's \<^verbatim>\<open>duration\<close>.
\<close>

definition frame :: "state \<Rightarrow> state \<Rightarrow> bool" where
  "frame s s' \<longleftrightarrow>
     employees s' = employees s \<and> tasks s' = tasks s \<and>
     (\<forall>a. max_hours (eheap s' a) = max_hours (eheap s a)) \<and>
     (\<forall>t. duration (theap s' t) = duration (theap s t))"

definition within_capacity :: "state \<Rightarrow> bool" where
  "within_capacity s \<longleftrightarrow>
     (\<forall>er\<in>set (employees s). current_hours (eheap s er) \<le> max_hours (eheap s er))"

text \<open>
  A state with the hours of the roster, the links of the listed tasks and the recorded
  reasons wiped: two states with the same \<open>wiped\<close> image differ in nothing else.
\<close>

definition wiped :: "state \<Rightarrow> state" where
  "wiped s =
     s\<lparr>eheap := (\<lambda>a. if a \<in> set (employees s) then (eheap s a)\<lparr>current_hours := 0\<rparr>
                       else eheap s a),
       theap := (\<lambda>t. if t \<in> set (tasks s) then (theap s t)\<lparr>assigned_employee := None\<rparr>
                       else theap s t),
       unassigned_reasons := Map.empty\<rparr>"

definition links_in_roster :: "state \<Rightarrow> bool" where
  "links_in_roster s \<longleftrightarrow>
     (\<forall>t\<in>set (tasks s). \<forall>a. assigned_employee (theap s t) = Some a \<longrightarrow> a \<in> set (employees s))"

definition unlinked :: "state \<Rightarrow> bool" where
  "unlinked s \<longleftrightarrow> (\<forall>t\<in>set (tasks s). assigned_employee (theap s t) = None)"

text \<open>An employee who cannot take any hours has not been given any.\<close>

definition idle_if_no_hours :: "state \<Rightarrow> bool" where
  "idle_if_no_hours s \<longleftrightarrow>
     (\<forall>er\<in>set (employees s). max_hours (eheap s er) = 0 \<longrightarrow> 0 \<le> current_hours (eheap s er))"

text \<open>
  Two tasks clash when they have the same priority and only one of them has a deadline:
  these are the pairs whose sort keys cannot be compared. The order the sort is meant to
  produce: higher priority first, then the earlier deadline, no deadline last.
\<close>

definition clash :: "Task \<Rightarrow> Task \<Rightarrow> bool" where
  "clash a b \<longleftrightarrow> priority a = priority b \<and> (deadline a = None) \<noteq> (deadline b = None)"

fun deadline_le :: "int option \<Rightarrow> int option \<Rightarrow> bool" where
  "deadline_le (Some a) (Some b) = (a \<le> b)"
| "deadline_le _ None = True"
| "deadline_le None (Some b) = False"

definition before :: "Task \<Rightarrow> Task \<Rightarrow> bool" where
  "before a b \<longleftrightarrow>
     priority a > priority b \<or> (priority a = priority b \<and> deadline_le (deadline a) (deadline b))"

section \<open>Properties\<close>

text \<open>
  C10. \<^verbatim>\<open>Task.assign_to\<close> is all or nothing: it returns \<^verbatim>\<open>True\<close> exactly when
  \<^verbatim>\<open>can_be_assigned_to\<close> holds at the call, and then the task is linked to the employee and
  the task's duration is added to that employee's \<^verbatim>\<open>current_hours\<close>; otherwise it returns
  \<^verbatim>\<open>False\<close> and the whole state, in particular the link and the hours, is unchanged.
\<close>

theorem assign_to_atomic:
  "(fst (assign_to s tr er) \<longleftrightarrow> can_be_assigned_to (theap s tr) (eheap s er)) \<and>
   (can_be_assigned_to (theap s tr) (eheap s er) \<longrightarrow>
      assigned_employee (theap (snd (assign_to s tr er)) tr) = Some er \<and>
      current_hours (eheap (snd (assign_to s tr er)) er)
        = current_hours (eheap s er) + duration (theap s tr)) \<and>
   (\<not> can_be_assigned_to (theap s tr) (eheap s er) \<longrightarrow> snd (assign_to s tr er) = s)"
  by (simp add: assign_to_def assign_hours_def)

theorem assign_to_atomic_witness:
  "fst (assign_to scenario 0 0) \<and>
   assigned_employee (theap (snd (assign_to scenario 0 0)) 0) = Some 0 \<and>
   current_hours (eheap (snd (assign_to scenario 0 0)) 0) = 20 \<and>
   \<not> fst (assign_to scenario 0 1) \<and> snd (assign_to scenario 0 1) = scenario"
proof -
  have yes: "can_be_assigned_to (theap scenario 0) (eheap scenario 0)"
    by (simp add: scenario_def alice_def api_task_def can_be_assigned_to_def has_training_def
        can_work_hours_def)
  have no: "\<not> can_be_assigned_to (theap scenario 0) (eheap scenario 1)"
    by (simp add: scenario_def bob_def api_task_def can_be_assigned_to_def has_training_def)
  have hours: "current_hours (eheap scenario 0) + duration (theap scenario 0) = 20"
    by (simp add: scenario_def alice_def api_task_def)
  show ?thesis
    using assign_to_atomic [of scenario 0 0] assign_to_atomic [of scenario 0 1] yes no hours
    by simp
qed

text \<open>
  C6. For an eligible employee (whose \<^verbatim>\<open>max_hours\<close> is not zero, so that the two divisions
  are defined) the score is the sum of three terms taken from the state before the
  assignment: the rank term, which is 50 for \<open>d = 0\<close>, 40 for \<open>0 < d \<le> 2\<close>, 20 for
  \<open>2 < d \<le> 4\<close> and 10 for \<open>d > 4\<close> where \<open>d = rank - min_rank\<close>; the availability term
  \<open>available_hours / max_hours * 30\<close> with \<open>available_hours = max 0 (max_hours - current_hours)\<close>;
  and the balance term \<open>(1 - current_hours / max_hours) * 20\<close>.
\<close>

theorem score_is_sum_of_three_terms:
  assumes "can_be_assigned_to t e" and "max_hours e \<noteq> 0"
  shows "\<exists>r. score_employee_for_task t e
               = Inr (r + available_hours e / max_hours e * 30
                        + (1 - current_hours e / max_hours e) * 20) \<and>
             available_hours e = max 0 (max_hours e - current_hours e) \<and>
             (rank e - min_rank t = 0 \<longrightarrow> r = 50) \<and>
             (0 < rank e - min_rank t \<and> rank e - min_rank t \<le> 2 \<longrightarrow> r = 40) \<and>
             (2 < rank e - min_rank t \<and> rank e - min_rank t \<le> 4 \<longrightarrow> r = 20) \<and>
             (4 < rank e - min_rank t \<longrightarrow> r = 10)"
proof -
  from assms(1) have "0 \<le> rank e - min_rank t"
    by (simp add: can_be_assigned_to_def)
  then have "(rank e - min_rank t = 0 \<longrightarrow> rank_score (rank e - min_rank t) = 50) \<and>
        (0 < rank e - min_rank t \<and> rank e - min_rank t \<le> 2 \<longrightarrow> rank_score (rank e - min_rank t) = 40) \<and>
        (2 < rank e - min_rank t \<and> rank e - min_rank t \<le> 4 \<longrightarrow> rank_score (rank e - min_rank t) = 20) \<and>
        (4 < rank e - min_rank t \<longrightarrow> rank_score (rank e - min_rank t) = 10)"
    by (simp add: rank_score_def)
  moreover from assms(2) have "score_employee_for_task t e
      = Inr (rank_score (rank e - min_rank t) + available_hours e / max_hours e * 30
               + (1 - current_hours e / max_hours e) * 20)"
    by (simp add: score_employee_for_task_def py_div_def)
  moreover have "available_hours e = max 0 (max_hours e - current_hours e)"
    by (simp add: available_hours_def)
  ultimately show ?thesis by blast
qed

theorem score_is_sum_of_three_terms_witness:
  "can_be_assigned_to api_task alice \<and> max_hours alice \<noteq> 0 \<and>
   score_employee_for_task api_task alice = Inr 70"
proof -
  have elig: "can_be_assigned_to api_task alice"
    by (simp add: alice_def api_task_def can_be_assigned_to_def has_training_def
        can_work_hours_def)
  have pos: "max_hours alice \<noteq> 0"
    by (simp add: alice_def)
  have facts: "rank alice - min_rank api_task = 3" "available_hours alice = 80"
    "max_hours alice = 80" "current_hours alice = 0"
    by (simp_all add: alice_def api_task_def available_hours_def)
  show ?thesis
    using score_is_sum_of_three_terms [OF elig pos] elig pos by (auto simp: facts)
qed

section \<open>Lemmas about list comprehensions and sorting\<close>

subsection \<open>Comprehensions\<close>

lemma py_map_Inr:
  "(\<And>x. x \<in> set xs \<Longrightarrow> f x = Inr (g x)) \<Longrightarrow> py_map f xs = Inr (map g xs)"
  by (induction xs) simp_all

lemma py_map_length: "py_map f xs = Inr ys \<Longrightarrow> length ys = length xs"
  by (induction xs arbitrary: ys) (auto split: sum.splits)

lemma py_map_nth:
  "py_map f xs = Inr ys \<Longrightarrow> i < length xs \<Longrightarrow> f (xs ! i) = Inr (ys ! i)"
proof (induction xs arbitrary: ys i)
  case Nil
  then show ?case by simp
next
  case (Cons x xs)
  then show ?case by (cases i) (auto split: sum.splits)
qed

subsection \<open>A sort that returns has permuted its input\<close>

lemma py_insert_mset: "py_insert lt x ys = Inr zs \<Longrightarrow> mset zs = add_mset x (mset ys)"
  by (induction ys arbitrary: zs) (auto split: sum.splits bool.splits)

lemma py_sort_from_mset: "py_sort_from lt acc xs = Inr ys \<Longrightarrow> mset ys = mset acc + mset xs"
proof (induction xs arbitrary: acc)
  case Nil
  then show ?case by simp
next
  case (Cons x xs)
  then show ?case by (auto split: sum.splits dest!: py_insert_mset)
qed

lemma py_sorted_mset: "py_sorted lt xs = Inr ys \<Longrightarrow> mset ys = mset xs"
  by (simp add: py_sorted_def py_sort_from_mset)

lemma py_sorted_reverse_mset: "py_sorted_reverse lt xs = Inr ys \<Longrightarrow> mset ys = mset xs"
  by (auto simp: py_sorted_reverse_def split: sum.splits dest!: py_sorted_mset)

lemma py_sorted_reverse_set: "py_sorted_reverse lt xs = Inr ys \<Longrightarrow> set ys = set xs"
  by (metis py_sorted_reverse_mset set_mset_mset)

subsection \<open>Sorting by a numeric key never raises; where the largest key ends up\<close>

lemma py_insert_float:
  fixes f :: "'a \<Rightarrow> real"
  assumes "sorted (map f acc)"
  shows "\<exists>zs. py_insert (\<lambda>x y. float_lt (f x) (f y)) x acc = Inr zs \<and> sorted (map f zs) \<and> zs \<noteq> [] \<and>
           last zs = (if acc = [] \<or> f (last acc) \<le> f x then x else last acc)"
  using assms
proof (induction acc)
  case Nil
  then show ?case by simp
next
  case (Cons y ys)
  show ?case
  proof (cases "f x < f y")
    case True
    with Cons.prems have a: "\<forall>z\<in>set (y # ys). f x < f z" by auto
    then have "f x < f (last (y # ys))"
      using last_in_set [of "y # ys"] by blast
    then have b: "\<not> f (last (y # ys)) \<le> f x" by simp
    from a have c: "sorted (map f (x # y # ys))"
      using Cons.prems by (auto intro: less_imp_le)
    have "py_insert (\<lambda>x y. float_lt (f x) (f y)) x (y # ys) = Inr (x # y # ys)"
      using True by (simp add: float_lt_def)
    with b c show ?thesis by simp
  next
    case False
    from Cons obtain zs where zs: "py_insert (\<lambda>x y. float_lt (f x) (f y)) x ys = Inr zs"
      "sorted (map f zs)" "zs \<noteq> []" "last zs = (if ys = [] \<or> f (last ys) \<le> f x then x else last ys)"
      by auto
    have "set zs = insert x (set ys)"
      using py_insert_mset [OF zs(1)] by (metis set_mset_add_mset_insert set_mset_mset)
    with False Cons.prems zs show ?thesis
      by (auto simp: float_lt_def)
  qed
qed

lemma py_sort_from_float:
  fixes f :: "'a \<Rightarrow> real"
  assumes "sorted (map f acc)" "acc \<noteq> []"
  shows "\<exists>ys. py_sort_from (\<lambda>x y. float_lt (f x) (f y)) acc xs = Inr ys \<and> ys \<noteq> [] \<and>
           last ys = foldl (\<lambda>b x. if f b \<le> f x then x else b) (last acc) xs"
  using assms
proof (induction xs arbitrary: acc)
  case Nil
  then show ?case by simp
next
  case (Cons x xs)
  from py_insert_float [OF Cons.prems(1), of x] obtain zs where
    zs: "py_insert (\<lambda>x y. float_lt (f x) (f y)) x acc = Inr zs" "sorted (map f zs)" "zs \<noteq> []"
      "last zs = (if acc = [] \<or> f (last acc) \<le> f x then x else last acc)"
    by blast
  from Cons.IH [OF zs(2,3)] zs(1,4) Cons.prems(2) show ?case by simp
qed

lemma foldr_first_max:
  fixes f :: "'a \<Rightarrow> real"
  shows "\<exists>i\<le>length ys. foldr (\<lambda>x b. if f b \<le> f x then x else b) ys z = (ys @ [z]) ! i \<and>
      (\<forall>j\<le>length ys. f ((ys @ [z]) ! j) \<le> f ((ys @ [z]) ! i)) \<and>
      (\<forall>j<i. f ((ys @ [z]) ! j) < f ((ys @ [z]) ! i))"
proof (induction ys)
  case Nil
  then show ?case by simp
next
  case (Cons y ys)
  let ?b = "foldr (\<lambda>x b. if f b \<le> f x then x else b) ys z"
  from Cons obtain i where i: "i \<le> length ys" "?b = (ys @ [z]) ! i"
    "\<forall>j\<le>length ys. f ((ys @ [z]) ! j) \<le> f ((ys @ [z]) ! i)"
    "\<forall>j<i. f ((ys @ [z]) ! j) < f ((ys @ [z]) ! i)"
    by blast
  show ?case
  proof (cases "f ?b \<le> f y")
    case True
    have "\<forall>j\<le>length (y # ys). f (((y # ys) @ [z]) ! j) \<le> f y"
    proof (intro allI impI)
      fix j assume "j \<le> length (y # ys)"
      then show "f (((y # ys) @ [z]) ! j) \<le> f y"
        using True i(2,3) by (cases j) (auto intro: order_trans)
    qed
    with True show ?thesis
      by (intro exI [of _ 0]) simp
  next
    case False
    have a: "\<forall>j\<le>length (y # ys). f (((y # ys) @ [z]) ! j) \<le> f (((y # ys) @ [z]) ! Suc i)"
    proof (intro allI impI)
      fix j assume "j \<le> length (y # ys)"
      then show "f (((y # ys) @ [z]) ! j) \<le> f (((y # ys) @ [z]) ! Suc i)"
        using False i(2,3) by (cases j) auto
    qed
    have b: "\<forall>j<Suc i. f (((y # ys) @ [z]) ! j) < f (((y # ys) @ [z]) ! Suc i)"
    proof (intro allI impI)
      fix j assume "j < Suc i"
      then show "f (((y # ys) @ [z]) ! j) < f (((y # ys) @ [z]) ! Suc i)"
        using False i(2,4) by (cases j) auto
    qed
    from False i(1,2) a b show ?thesis
      by (intro exI [of _ "Suc i"]) simp
  qed
qed

lemma py_sorted_reverse_float:
  fixes f :: "'a \<Rightarrow> real"
  assumes "xs \<noteq> []"
  shows "\<exists>ys i. py_sorted_reverse (\<lambda>x y. float_lt (f x) (f y)) xs = Inr ys \<and> ys \<noteq> [] \<and>
           i < length xs \<and> hd ys = xs ! i \<and>
           (\<forall>j<length xs. f (xs ! j) \<le> f (xs ! i)) \<and> (\<forall>j<i. f (xs ! j) < f (xs ! i))"
proof -
  from assms obtain as z where xs: "xs = as @ [z]"
    by (metis rev_exhaust)
  have "sorted (map f [z])" "[z] \<noteq> []" by simp_all
  from py_sort_from_float [OF this, of "rev as"] obtain ys where
    ys: "py_sort_from (\<lambda>x y. float_lt (f x) (f y)) [z] (rev as) = Inr ys" "ys \<noteq> []"
      "last ys = foldl (\<lambda>b x. if f b \<le> f x then x else b) z (rev as)"
    by auto
  have sorted: "py_sorted_reverse (\<lambda>x y. float_lt (f x) (f y)) xs = Inr (rev ys)"
    using ys(1) by (simp add: py_sorted_reverse_def py_sorted_def xs float_lt_def)
  have "hd (rev ys) = foldr (\<lambda>x b. if f b \<le> f x then x else b) as z"
    using ys(2,3) by (simp add: hd_rev foldl_conv_foldr)
  with foldr_first_max [of as f z] obtain i where
    "i \<le> length as" "hd (rev ys) = xs ! i" "\<forall>j\<le>length as. f (xs ! j) \<le> f (xs ! i)"
    "\<forall>j<i. f (xs ! j) < f (xs ! i)"
    unfolding xs by auto
  with sorted ys(2) show ?thesis
    by (intro exI [of _ "rev ys"] exI [of _ i]) (auto simp: xs less_Suc_eq_le)
qed

section \<open>Evaluating the model\<close>

lemmas model_defs =
  schedule_all_def begin_pass_def reset_def unassign_def reset_employee_def reset_hours_def
  sort_tasks_by_priority_def py_sorted_def py_sorted_reverse_def key_lt_def sort_key_def
  float_lt_def assign_task_def get_eligible_employees_def select_best_employee_def scored_def
  score_employee_for_task_def rank_score_def py_div_def available_hours_def
  can_be_assigned_to_def has_training_def can_work_hours_def assign_to_def assign_hours_def
  get_unassigned_tasks_def get_assigned_tasks_def is_assigned_def
  get_all_unassignment_reasons_def get_unassignment_reasons_def

lemmas example_defs = scenario_def alice_def bob_def api_task_def plain_env_def

lemma scenario_run:
  "schedule_all plain_env scenario
     = Inr (True, scenario\<lparr>eheap := (eheap scenario)(0 := alice\<lparr>current_hours := 20\<rparr>),
                            theap := (theap scenario)(0 := api_task\<lparr>assigned_employee := Some 0\<rparr>)\<rparr>)"
  by (simp add: model_defs example_defs)

section \<open>Reset\<close>

text \<open>
  C1. After \<^verbatim>\<open>reset()\<close> every task is unlinked, but the hours are not all zero.
  \<^verbatim>\<open>Schedule.reset\<close> first sets every employee's hours to 0 and only then calls
  \<^verbatim>\<open>Task.unassign\<close>, which subtracts the task's duration from the hours of the employee it
  was linked to. In the scenario of the specification the pass gives the task of 20 hours
  to the first employee; after \<^verbatim>\<open>reset()\<close> that employee has \<open>- 20\<close> hours, and
  \<^verbatim>\<open>get_statistics()\<close> reports no assigned task and \<open>- 20\<close> hours scheduled.
\<close>

theorem reset_leaves_negative_hours:
  "\<exists>s. schedule_all plain_env scenario = Inr (True, s) \<and>
       current_hours (eheap s 0) = 20 \<and>
       assigned_employee (theap (reset s) 0) = None \<and>
       current_hours (eheap (reset s) 0) = - 20 \<and>
       (\<exists>st. get_statistics plain_env (reset s) = Inr st \<and>
             assigned_tasks st = 0 \<and> total_hours_scheduled st = - 20)"
  unfolding scenario_run
  by (simp add: model_defs example_defs get_statistics_def get_completion_rate_def total_hours_def)

section \<open>Ordering the tasks\<close>

text \<open>
  C3. The ordering step does not complete on every mix of tasks: for two tasks of equal
  priority of which only one has a deadline, the keys are \<^verbatim>\<open>(-5, datetime)\<close> and
  \<^verbatim>\<open>(-5, inf)\<close>, their comparison raises \<^verbatim>\<open>TypeError\<close>, and so does \<^verbatim>\<open>schedule_all\<close>.
\<close>

theorem sort_tasks_mixed_deadlines_raises:
  "sort_tasks_by_priority mixed_deadlines = Inl TypeError \<and>
   schedule_all plain_env mixed_deadlines = Inl TypeError"
  by (simp add: model_defs example_defs mixed_deadlines_def report_task_def cleanup_task_def)

subsection \<open>When the ordering step raises\<close>

lemma key_lt_clash: "clash a b \<Longrightarrow> key_lt (sort_key a) (sort_key b) = Inl TypeError"
  by (cases "deadline a"; cases "deadline b") (simp_all add: clash_def key_lt_def sort_key_def)

lemma key_lt_no_clash:
  "\<not> clash a b \<Longrightarrow> key_lt (sort_key a) (sort_key b) = Inr (\<not> before b a)"
  by (cases "deadline a"; cases "deadline b")
    (auto simp: clash_def key_lt_def sort_key_def before_def)

lemma clash_sym: "clash a b \<Longrightarrow> clash b a"
  by (auto simp: clash_def)

lemma before_trans: "before a b \<Longrightarrow> before b c \<Longrightarrow> before a c"
  by (cases "deadline a"; cases "deadline b"; cases "deadline c") (auto simp: before_def)

lemma before_total: "before a b \<or> before b a"
  by (cases "deadline a"; cases "deadline b") (auto simp: before_def)

lemma before_no_clash:
  "before a b \<Longrightarrow> \<not> before b a \<Longrightarrow> \<not> clash a b \<Longrightarrow> \<not> clash b c \<Longrightarrow> before b c \<Longrightarrow>
   \<not> clash a c"
  by (cases "deadline a"; cases "deadline b"; cases "deadline c") (auto simp: before_def clash_def)

text \<open>
  Inserting into a prefix that is in order and free of clashes: the insertion raises exactly
  when the new task clashes with a task of the prefix, and otherwise keeps the order.
\<close>

lemma py_insert_tasks:
  fixes T :: "ref \<Rightarrow> Task"
  defines "lt \<equiv> \<lambda>a b. key_lt (sort_key (T a)) (sort_key (T b))"
  assumes "sorted_wrt (\<lambda>a b. before (T a) (T b)) acc"
    and "\<forall>a\<in>set acc. \<forall>b\<in>set acc. \<not> clash (T a) (T b)"
  shows "(if \<exists>y\<in>set acc. clash (T x) (T y) then py_insert lt x acc = Inl TypeError
          else \<exists>zs. py_insert lt x acc = Inr zs \<and> sorted_wrt (\<lambda>a b. before (T a) (T b)) zs \<and>
                 set zs = insert x (set acc))"
  using assms(2,3)
proof (induction acc)
  case Nil
  then show ?case by simp
next
  case (Cons y ys)
  show ?case
  proof (cases "clash (T x) (T y)")
    case True
    then show ?thesis by (simp add: lt_def key_lt_clash)
  next
    case False
    note no_y = this
    then have lt: "lt x y = Inr (\<not> before (T y) (T x))"
      by (simp add: lt_def key_lt_no_clash)
    show ?thesis
    proof (cases "before (T y) (T x)")
      case False
      with before_total [of "T x" "T y"] have xy: "before (T x) (T y)" by blast
      have "\<forall>z\<in>set ys. \<not> clash (T x) (T z)"
      proof
        fix z assume z: "z \<in> set ys"
        with Cons.prems have "before (T y) (T z)" "\<not> clash (T y) (T z)" by auto
        with before_no_clash [OF xy False no_y] show "\<not> clash (T x) (T z)" by blast
      qed
      moreover have "\<forall>z\<in>set (y # ys). before (T x) (T z)"
        using xy Cons.prems(1) by (auto intro: before_trans)
      ultimately show ?thesis
        using lt False no_y Cons.prems(1) by simp
    next
      case True
      from Cons.prems have "sorted_wrt (\<lambda>a b. before (T a) (T b)) ys"
        "\<forall>a\<in>set ys. \<forall>b\<in>set ys. \<not> clash (T a) (T b)"
        by simp_all
      note IH = Cons.IH [OF this]
      show ?thesis
      proof (cases "\<exists>z\<in>set ys. clash (T x) (T z)")
        case c: True
        with IH lt True show ?thesis by simp
      next
        case c: False
        with IH obtain zs where zs: "py_insert lt x ys = Inr zs"
          "sorted_wrt (\<lambda>a b. before (T a) (T b)) zs" "set zs = insert x (set ys)"
          by auto
        with c no_y lt True Cons.prems(1) show ?thesis by auto
      qed
    qed
  qed
qed

lemma py_sort_from_tasks:
  fixes T :: "ref \<Rightarrow> Task"
  defines "lt \<equiv> \<lambda>a b. key_lt (sort_key (T a)) (sort_key (T b))"
  assumes "sorted_wrt (\<lambda>a b. before (T a) (T b)) acc"
    and "\<forall>a\<in>set acc. \<forall>b\<in>set acc. \<not> clash (T a) (T b)"
  shows "(if \<exists>a\<in>set acc \<union> set xs. \<exists>b\<in>set acc \<union> set xs. clash (T a) (T b)
          then py_sort_from lt acc xs = Inl TypeError
          else \<exists>zs. py_sort_from lt acc xs = Inr zs \<and> sorted_wrt (\<lambda>a b. before (T a) (T b)) zs)"
  using assms(2,3)
proof (induction xs arbitrary: acc)
  case Nil
  then show ?case by simp
next
  case (Cons x xs)
  note ins = py_insert_tasks [OF Cons.prems, of x, folded lt_def]
  show ?case
  proof (cases "\<exists>y\<in>set acc. clash (T x) (T y)")
    case True
    with ins have "py_sort_from lt acc (x # xs) = Inl TypeError" by simp
    moreover from True have "\<exists>a\<in>set acc \<union> set (x # xs). \<exists>b\<in>set acc \<union> set (x # xs). clash (T a) (T b)"
      by auto
    ultimately show ?thesis by simp
  next
    case False
    with ins obtain zs where zs: "py_insert lt x acc = Inr zs"
      "sorted_wrt (\<lambda>a b. before (T a) (T b)) zs" "set zs = insert x (set acc)"
      by auto
    have xx: "\<not> clash (T x) (T x)" by (simp add: clash_def)
    from False Cons.prems(2) zs(3) xx have free: "\<forall>a\<in>set zs. \<forall>b\<in>set zs. \<not> clash (T a) (T b)"
      by (auto dest: clash_sym)
    have "set zs \<union> set xs = set acc \<union> set (x # xs)"
      using zs(3) by auto
    with Cons.IH [OF zs(2) free] zs(1) show ?thesis by simp
  qed
qed

text \<open>
  With deadlines that compare with each other (see the beginning of the theory), the
  ordering step raises \<^verbatim>\<open>TypeError\<close> exactly when two listed tasks have the same priority
  and only one of them has a deadline; otherwise it returns the tasks with higher priority
  first and, among equal priorities, earlier deadlines first.
\<close>

lemma sort_tasks_raises_iff:
  "sort_tasks_by_priority s = Inl TypeError \<longleftrightarrow>
     (\<exists>a\<in>set (tasks s). \<exists>b\<in>set (tasks s). clash (theap s a) (theap s b))"
  using py_sort_from_tasks [of "theap s" "[]" "tasks s"]
  by (cases "\<exists>a\<in>set (tasks s). \<exists>b\<in>set (tasks s). clash (theap s a) (theap s b)")
    (auto simp: sort_tasks_by_priority_def py_sorted_def)

lemma sort_tasks_ordered:
  "sort_tasks_by_priority s = Inr l \<Longrightarrow> sorted_wrt (\<lambda>a b. before (theap s a) (theap s b)) l"
  using py_sort_from_tasks [of "theap s" "[]" "tasks s"]
  by (cases "\<exists>a\<in>set (tasks s). \<exists>b\<in>set (tasks s). clash (theap s a) (theap s b)")
    (auto simp: sort_tasks_by_priority_def py_sorted_def split: sum.splits)

section \<open>Reasons\<close>

text \<open>
  C7. The missing skills are joined in the order in which the set difference is iterated,
  without sorting: when \<^verbatim>\<open>{'Go', 'Rust'}\<close> is iterated as \<^verbatim>\<open>'Rust', 'Go'\<close> the reason reads
  \<^verbatim>\<open>Missing required training: Rust, Go\<close>, not \<^verbatim>\<open>Go, Rust\<close>.
\<close>

theorem missing_training_reason_unsorted:
  "get_unassignment_reasons hashed_env rust_task bob = [''Missing required training: Rust, Go'']"
  by (simp add: model_defs example_defs rust_task_def hashed_env_def)

section \<open>Tasks of an employee\<close>

text \<open>
  C8, as stated, fails: \<^verbatim>\<open>get_employee_tasks\<close> compares with \<^verbatim>\<open>==\<close>, which the dataclass
  defines field by field. In the schedule rebuilt from the session the task is linked to
  object 2, and the query for object 0 returns it.
\<close>

theorem get_employee_tasks_not_by_identity:
  "0 \<in> set (get_employee_tasks session_copy 0) \<and>
   assigned_employee (theap session_copy 0) \<noteq> Some 0"
  by (simp add: get_employee_tasks_def employee_eq_def session_copy_def example_defs)

text \<open>
  C8, amended. \<^verbatim>\<open>get_employee_tasks(e)\<close> returns, in the order of the task list, exactly the
  tasks that are linked to an employee whose seven fields equal those of \<open>e\<close>. A task linked
  to \<open>e\<close> itself is among them.
\<close>

theorem get_employee_tasks_by_value:
  "get_employee_tasks s er =
     filter (\<lambda>tr. \<exists>a. assigned_employee (theap s tr) = Some a \<and>
                    emp_id (eheap s a) = emp_id (eheap s er) \<and>
                    emp_name (eheap s a) = emp_name (eheap s er) \<and>
                    training (eheap s a) = training (eheap s er) \<and>
                    rank (eheap s a) = rank (eheap s er) \<and>
                    position (eheap s a) = position (eheap s er) \<and>
                    max_hours (eheap s a) = max_hours (eheap s er) \<and>
                    current_hours (eheap s a) = current_hours (eheap s er)) (tasks s)"
  unfolding get_employee_tasks_def employee_eq_def
  by (rule filter_cong) (auto split: option.splits)

section \<open>Choosing the employee\<close>

lemma py_map_set:
  "py_map f xs = Inr ys \<Longrightarrow> y \<in> set ys \<Longrightarrow> \<exists>x\<in>set xs. f x = Inr y"
proof (induction xs arbitrary: ys)
  case Nil
  then show ?case by simp
next
  case (Cons x xs)
  from Cons.prems(1) obtain z zs where z: "f x = Inr z" and zs: "py_map f xs = Inr zs"
    and ys: "ys = z # zs"
    by (cases "f x"; cases "py_map f xs") auto
  show ?case
  proof (cases "y = z")
    case True
    with z show ?thesis by auto
  next
    case False
    with Cons.prems(2) ys have "y \<in> set zs" by simp
    from Cons.IH [OF zs this] show ?thesis by auto
  qed
qed

lemma score_defined:
  "max_hours e \<noteq> 0 \<Longrightarrow> \<exists>v. score_employee_for_task t e = Inr v"
  by (simp add: score_employee_for_task_def py_div_def)

lemma select_best_first_max:
  assumes "elig \<noteq> []"
    and "\<And>er. er \<in> set elig \<Longrightarrow> score_employee_for_task (theap s tr) (eheap s er) = Inr (v er)"
  shows "\<exists>i<length elig. select_best_employee s tr elig = Inr (elig ! i) \<and>
           (\<forall>j<length elig. v (elig ! j) \<le> v (elig ! i)) \<and>
           (\<forall>j<i. v (elig ! j) < v (elig ! i))"
proof -
  let ?xs = "map (\<lambda>er. (er, v er)) elig"
  have m: "py_map (scored s tr) elig = Inr ?xs"
    by (rule py_map_Inr) (simp add: scored_def assms(2))
  from assms(1) have "?xs \<noteq> []" by simp
  from py_sorted_reverse_float [OF this, of snd] obtain ys i where
    ys: "py_sorted_reverse (\<lambda>x y. float_lt (snd x) (snd y)) ?xs = Inr ys" "ys \<noteq> []"
      "i < length ?xs" "hd ys = ?xs ! i"
      "\<forall>j<length ?xs. snd (?xs ! j) \<le> snd (?xs ! i)" "\<forall>j<i. snd (?xs ! j) < snd (?xs ! i)"
    by blast
  from ys(2) obtain y ys' where "ys = y # ys'" by (cases ys) auto
  with ys(1,3,4) m have "select_best_employee s tr elig = Inr (elig ! i)"
    by (simp add: select_best_employee_def)
  with ys(3,5,6) show ?thesis
    by (intro exI [of _ i]) simp
qed

lemma select_best_mem:
  assumes "select_best_employee s tr elig = Inr b"
  shows "b \<in> set elig"
proof (cases "py_map (scored s tr) elig")
  case (Inl e)
  with assms show ?thesis by (simp add: select_best_employee_def)
next
  case (Inr sc)
  show ?thesis
  proof (cases "py_sorted_reverse (\<lambda>x y. float_lt (snd x) (snd y)) sc")
    case (Inl e)
    with Inr assms show ?thesis by (simp add: select_best_employee_def)
  next
    case sorted: (Inr ys)
    show ?thesis
    proof (cases ys)
      case Nil
      with Inr sorted assms show ?thesis by (simp add: select_best_employee_def)
    next
      case (Cons p ps)
      with Inr sorted assms have b: "b = fst p" by (simp add: select_best_employee_def)
      from Cons have "p \<in> set sc"
        using py_sorted_reverse_set [OF sorted] by auto
      from py_map_set [OF Inr this] obtain er where "er \<in> set elig" "scored s tr er = Inr p"
        by blast
      then show ?thesis
        unfolding b scored_def by (cases "score_employee_for_task (theap s tr) (eheap s er)") auto
    qed
  qed
qed


text \<open>
  C5. When every eligible employee can be scored, \<^verbatim>\<open>_select_best_employee\<close> returns the
  first employee of the eligible list whose score is maximal: no employee of the list has a
  higher score, and every employee in front of the selected one has a strictly lower score.
\<close>

theorem select_best_employee_first_maximal:
  assumes "elig \<noteq> []" and "\<forall>er\<in>set elig. max_hours (eheap s er) \<noteq> 0"
  shows "\<exists>vs. length vs = length elig \<and>
           (\<forall>j<length elig.
              score_employee_for_task (theap s tr) (eheap s (elig ! j)) = Inr (vs ! j)) \<and>
           (\<exists>i<length elig. select_best_employee s tr elig = Inr (elig ! i) \<and>
              (\<forall>j<length elig. vs ! j \<le> vs ! i) \<and> (\<forall>j<i. vs ! j < vs ! i))"
proof -
  from assms(2)
  have "\<forall>er\<in>set elig. \<exists>x. score_employee_for_task (theap s tr) (eheap s er) = Inr x"
    by (simp add: score_defined)
  then obtain v where
    v: "\<forall>er\<in>set elig. score_employee_for_task (theap s tr) (eheap s er) = Inr (v er)"
    by (rule bchoice [THEN exE])
  from select_best_first_max [OF assms(1), of s tr v] v obtain i where
    i: "i < length elig" "select_best_employee s tr elig = Inr (elig ! i)"
    "\<forall>j<length elig. v (elig ! j) \<le> v (elig ! i)" "\<forall>j<i. v (elig ! j) < v (elig ! i)"
    by blast
  have "\<forall>j<length elig.
          score_employee_for_task (theap s tr) (eheap s (elig ! j)) = Inr (map v elig ! j)"
    using v by simp
  moreover have "\<forall>j<length elig. map v elig ! j \<le> map v elig ! i"
    using i(1,3) by simp
  moreover have "\<forall>j<i. map v elig ! j < map v elig ! i"
    using i(1,4) by simp
  ultimately show ?thesis
    using i(1,2) by (intro exI [of _ "map v elig"] conjI exI [of _ i]) simp_all
qed

theorem select_best_employee_first_maximal_witness:
  "get_eligible_employees tied 0 = [0, 1] \<and>
   score_employee_for_task (theap tied 0) (eheap tied 0) = Inr 70 \<and>
   score_employee_for_task (theap tied 0) (eheap tied 1) = Inr 70 \<and>
   select_best_employee tied 0 (get_eligible_employees tied 0) = Inr 0"
proof -
  have elig: "get_eligible_employees tied 0 = [0, 1]"
    by (simp add: get_eligible_employees_def can_be_assigned_to_def has_training_def
        can_work_hours_def example_defs tied_def)
  have s0: "score_employee_for_task (theap tied 0) (eheap tied 0) = Inr 70"
    and s1: "score_employee_for_task (theap tied 0) (eheap tied 1) = Inr 70"
    by (simp_all add: score_employee_for_task_def rank_score_def py_div_def available_hours_def
        example_defs tied_def)
  have ne: "[0, 1::nat] \<noteq> []" by simp
  have mh: "\<forall>er\<in>set [0, 1::nat]. max_hours (eheap tied er) \<noteq> 0"
    by (simp add: example_defs tied_def)
  from select_best_employee_first_maximal [OF ne mh, of 0] obtain vs i where
    vs: "\<forall>j<length [0, 1::nat].
           score_employee_for_task (theap tied 0) (eheap tied ([0, 1] ! j)) = Inr (vs ! j)"
    and i: "i < length [0, 1::nat]" "select_best_employee tied 0 [0, 1] = Inr ([0, 1] ! i)"
      "\<forall>j<i. vs ! j < vs ! i"
    by blast
  from vs [rule_format, of 0] vs [rule_format, of 1] s0 s1 have "vs ! 0 = 70" "vs ! 1 = 70"
    by simp_all
  with i(3) have "i \<noteq> 1" by auto
  with i(1) have "i = 0" by simp
  with i(2) elig s0 s1 show ?thesis by simp
qed

section \<open>What the engine leaves alone\<close>

lemma frame_refl: "frame s s"
  by (simp add: frame_def)

lemma frame_trans: "frame s s' \<Longrightarrow> frame s' s'' \<Longrightarrow> frame s s''"
  by (simp add: frame_def)

lemma frame_unassign: "frame s (unassign t s)"
  by (simp add: frame_def unassign_def split: option.splits)

lemma frame_fold_unassign: "frame s (fold unassign ts s)"
proof (induction ts arbitrary: s)
  case Nil
  show ?case by (simp add: frame_refl)
next
  case (Cons t ts)
  from frame_trans [OF frame_unassign Cons] show ?case by simp
qed

lemma frame_reset_employee: "frame s (reset_employee er s)"
  by (simp add: frame_def reset_employee_def reset_hours_def)

lemma frame_fold_reset_employee: "frame s (fold reset_employee es s)"
proof (induction es arbitrary: s)
  case Nil
  show ?case by (simp add: frame_refl)
next
  case (Cons e es)
  from frame_trans [OF frame_reset_employee Cons] show ?case by simp
qed

lemma frame_reset: "frame s (reset s)"
  using frame_trans [OF frame_fold_reset_employee [of s "employees s"]
      frame_fold_unassign [of "fold reset_employee (employees s) s" "tasks s"]]
  by (simp add: reset_def)

lemma frame_begin_pass: "frame s (begin_pass s)"
  using frame_reset [of s] by (simp add: begin_pass_def frame_def)

lemma frame_assign_to: "frame s (snd (assign_to s tr er))"
  by (simp add: frame_def assign_to_def assign_hours_def)

lemma assign_task_cases:
  assumes "assign_task s tr = Inr (ok, s')"
  obtains (none) "get_eligible_employees s tr = []" "ok = False" "s' = s"
  | (best) b where "b \<in> set (get_eligible_employees s tr)" "(ok, s') = assign_to s tr b"
proof (cases "get_eligible_employees s tr = []")
  case True
  with assms have "ok = False" "s' = s" by (simp_all add: assign_task_def)
  with True show ?thesis by (rule none)
next
  case False
  show ?thesis
  proof (cases "select_best_employee s tr (get_eligible_employees s tr)")
    case (Inl e)
    with False assms show ?thesis by (simp add: assign_task_def)
  next
    case (Inr b)
    with False assms have "(ok, s') = assign_to s tr b" by (simp add: assign_task_def)
    with select_best_mem [OF Inr] show ?thesis by (rule best)
  qed
qed

lemma frame_assign_task: "assign_task s tr = Inr (ok, s') \<Longrightarrow> frame s s'"
proof (erule assign_task_cases)
  assume "s' = s" then show ?thesis by (simp add: frame_refl)
next
  fix b assume "(ok, s') = assign_to s tr b"
  then have "s' = snd (assign_to s tr b)" by (metis snd_conv)
  then show ?thesis by (simp add: frame_assign_to)
qed

lemma schedule_loop_step:
  assumes "schedule_loop env (tr # trs) s = Inr s'"
  obtains ok s1 s2 where "assign_task s tr = Inr (ok, s1)"
    "s2 = (if ok then s1 else s1\<lparr>unassigned_reasons := (unassigned_reasons s1)
             (task_id (theap s1 tr) \<mapsto> get_all_unassignment_reasons env s1 tr)\<rparr>)"
    "schedule_loop env trs s2 = Inr s'"
proof (cases "assign_task s tr")
  case (Inl e)
  with assms show ?thesis by simp
next
  case (Inr p)
  obtain ok s1 where p: "p = (ok, s1)" by (cases p)
  with Inr assms that show ?thesis by simp
qed

lemma frame_reasons: "frame s (s\<lparr>unassigned_reasons := r\<rparr>)"
  by (simp add: frame_def)

lemma frame_loop: "schedule_loop env trs s = Inr s' \<Longrightarrow> frame s s'"
proof (induction trs arbitrary: s)
  case Nil
  then show ?case by (simp add: frame_refl)
next
  case (Cons tr trs)
  from Cons.prems obtain ok s1 s2 where a: "assign_task s tr = Inr (ok, s1)"
    and s2: "s2 = (if ok then s1 else s1\<lparr>unassigned_reasons := (unassigned_reasons s1)
             (task_id (theap s1 tr) \<mapsto> get_all_unassignment_reasons env s1 tr)\<rparr>)"
    and l: "schedule_loop env trs s2 = Inr s'"
    by (rule schedule_loop_step)
  have "frame s1 s2" unfolding s2 by (simp add: frame_refl frame_reasons)
  from frame_trans [OF frame_trans [OF frame_assign_task [OF a] this] Cons.IH [OF l]]
  show ?case .
qed

section \<open>Capacity\<close>

lemma fold_reset_employee_eheap:
  "eheap (fold reset_employee es s) a
     = (if a \<in> set es then (eheap s a)\<lparr>current_hours := 0\<rparr> else eheap s a)"
  by (induction es arbitrary: s) (simp_all add: reset_employee_def reset_hours_def)

lemma fold_reset_employee_other:
  "theap (fold reset_employee es s) = theap s"
  "tasks (fold reset_employee es s) = tasks s"
  "employees (fold reset_employee es s) = employees s"
  "unassigned_reasons (fold reset_employee es s) = unassigned_reasons s"
  by (induction es arbitrary: s) (simp_all add: reset_employee_def)

lemma hours_unassign_le:
  "0 \<le> duration (theap s t) \<Longrightarrow>
   current_hours (eheap (unassign t s) a) \<le> current_hours (eheap s a)"
  by (simp add: unassign_def split: option.splits)

lemma hours_fold_unassign_le:
  "\<forall>t\<in>set ts. 0 \<le> duration (theap s t) \<Longrightarrow>
   current_hours (eheap (fold unassign ts s) a) \<le> current_hours (eheap s a)"
proof (induction ts arbitrary: s)
  case Nil
  show ?case by simp
next
  case (Cons t ts)
  have "\<forall>u\<in>set ts. 0 \<le> duration (theap (unassign t s) u)"
    using Cons.prems frame_unassign [of s t] by (simp add: frame_def)
  from Cons.IH [OF this] hours_unassign_le [of s t a] Cons.prems show ?case
    by simp
qed

lemma hours_reset_le:
  assumes "\<forall>t\<in>set (tasks s). 0 \<le> duration (theap s t)" and "a \<in> set (employees s)"
  shows "current_hours (eheap (reset s) a) \<le> 0"
proof -
  let ?s1 = "fold reset_employee (employees s) s"
  have "\<forall>t\<in>set (tasks s). 0 \<le> duration (theap ?s1 t)"
    using assms(1) by (simp add: fold_reset_employee_other)
  from hours_fold_unassign_le [OF this, of a] assms(2) show ?thesis
    by (simp add: reset_def fold_reset_employee_other fold_reset_employee_eheap)
qed

lemma capacity_assign_to:
  "within_capacity s \<Longrightarrow> within_capacity (snd (assign_to s tr er))"
  by (simp add: within_capacity_def assign_to_def assign_hours_def can_be_assigned_to_def
      can_work_hours_def)

lemma capacity_assign_task:
  "within_capacity s \<Longrightarrow> assign_task s tr = Inr (ok, s') \<Longrightarrow> within_capacity s'"
proof (erule assign_task_cases)
  assume "within_capacity s" "s' = s" then show ?thesis by simp
next
  fix b assume "within_capacity s" "(ok, s') = assign_to s tr b"
  then show ?thesis using capacity_assign_to [of s tr b] by (metis snd_conv)
qed

lemma capacity_loop:
  "within_capacity s \<Longrightarrow> schedule_loop env trs s = Inr s' \<Longrightarrow> within_capacity s'"
proof (induction trs arbitrary: s)
  case Nil
  then show ?case by simp
next
  case (Cons tr trs)
  from Cons.prems(2) obtain ok s1 s2 where a: "assign_task s tr = Inr (ok, s1)"
    and s2: "s2 = (if ok then s1 else s1\<lparr>unassigned_reasons := (unassigned_reasons s1)
             (task_id (theap s1 tr) \<mapsto> get_all_unassignment_reasons env s1 tr)\<rparr>)"
    and l: "schedule_loop env trs s2 = Inr s'"
    by (rule schedule_loop_step)
  from capacity_assign_task [OF Cons.prems(1) a] have "within_capacity s2"
    unfolding s2 by (simp add: within_capacity_def)
  from Cons.IH [OF this l] show ?case .
qed

lemma schedule_all_cases:
  assumes "schedule_all env s = Inr (ok, s')"
  obtains sorted_tasks where "sort_tasks_by_priority (begin_pass s) = Inr sorted_tasks"
    "schedule_loop env sorted_tasks (begin_pass s) = Inr s'"
    "ok = (length (get_unassigned_tasks s') = 0)"
proof (cases "sort_tasks_by_priority (begin_pass s)")
  case (Inl e)
  with assms show ?thesis by (simp add: schedule_all_def)
next
  case (Inr ts)
  show ?thesis
  proof (cases "schedule_loop env ts (begin_pass s)")
    case (Inl e)
    with Inr assms show ?thesis by (simp add: schedule_all_def)
  next
    case loop: (Inr s1)
    with Inr assms that show ?thesis by (auto simp: schedule_all_def)
  qed
qed

text \<open>
  C4. When the roster's \<^verbatim>\<open>max_hours\<close> and the tasks' durations are not negative (the data
  model makes both positive) and \<^verbatim>\<open>schedule_all()\<close> returns, the roster is the one the pass
  started with and no employee of it has more \<^verbatim>\<open>current_hours\<close> than \<^verbatim>\<open>max_hours\<close>.
\<close>

theorem schedule_all_within_capacity:
  assumes "\<forall>er\<in>set (employees s). 0 \<le> max_hours (eheap s er)"
    and "\<forall>tr\<in>set (tasks s). 0 \<le> duration (theap s tr)"
    and "schedule_all env s = Inr (ok, s')"
  shows "employees s' = employees s \<and>
         (\<forall>er\<in>set (employees s'). current_hours (eheap s' er) \<le> max_hours (eheap s' er))"
proof -
  from assms(3) obtain sorted_tasks where
    loop: "schedule_loop env sorted_tasks (begin_pass s) = Inr s'"
    by (rule schedule_all_cases)
  have f0: "frame s (begin_pass s)" by (rule frame_begin_pass)
  have "within_capacity (begin_pass s)"
    unfolding within_capacity_def
  proof
    fix er assume "er \<in> set (employees (begin_pass s))"
    with f0 have er: "er \<in> set (employees s)" by (simp add: frame_def)
    from hours_reset_le [OF assms(2) er] have "current_hours (eheap (begin_pass s) er) \<le> 0"
      by (simp add: begin_pass_def)
    also from assms(1) er f0 have "0 \<le> max_hours (eheap (begin_pass s) er)"
      by (simp add: frame_def)
    finally show "current_hours (eheap (begin_pass s) er) \<le> max_hours (eheap (begin_pass s) er)" .
  qed
  from capacity_loop [OF this loop] have "within_capacity s'" .
  moreover from frame_trans [OF f0 frame_loop [OF loop]] have "employees s' = employees s"
    by (simp add: frame_def)
  ultimately show ?thesis by (simp add: within_capacity_def)
qed

theorem schedule_all_within_capacity_witness:
  "employees scenario = [0, 1] \<and> tasks scenario = [0] \<and>
   0 \<le> max_hours (eheap scenario 0) \<and> 0 \<le> max_hours (eheap scenario 1) \<and>
   0 \<le> duration (theap scenario 0) \<and>
   (\<exists>s'. schedule_all plain_env scenario = Inr (True, s') \<and>
         current_hours (eheap s' 0) = 20 \<and> max_hours (eheap s' 0) = 80 \<and>
         current_hours (eheap s' 0) \<le> max_hours (eheap s' 0) \<and>
         current_hours (eheap s' 1) \<le> max_hours (eheap s' 1))"
proof -
  have a: "\<forall>er\<in>set (employees scenario). 0 \<le> max_hours (eheap scenario er)"
    by (simp add: example_defs)
  have b: "\<forall>tr\<in>set (tasks scenario). 0 \<le> duration (theap scenario tr)"
    by (simp add: example_defs)
  have c: "employees scenario = [0, 1]" "tasks scenario = [0]"
    by (simp_all add: example_defs)
  from schedule_all_within_capacity [OF a b scenario_run] a b c show ?thesis
    by (simp add: scenario_run) (simp add: example_defs)
qed

section \<open>No division by zero\<close>

subsection \<open>The ordering step can only raise a type error\<close>

lemma deadline_lt_error: "deadline_lt a b = Inl e \<Longrightarrow> e = TypeError"
  by (cases a; cases b) simp_all

lemma key_lt_error: "key_lt k1 k2 = Inl e \<Longrightarrow> e = TypeError"
  by (auto simp: key_lt_def split: if_splits dest: deadline_lt_error)

lemma py_insert_error:
  assumes "\<forall>a b e'. lt a b = Inl e' \<longrightarrow> e' = TypeError"
  shows "py_insert lt x ys = Inl e \<Longrightarrow> e = TypeError"
proof (induction ys)
  case Nil
  then show ?case by simp
next
  case (Cons y ys)
  show ?case
  proof (cases "lt x y")
    case (Inl e')
    with Cons.prems assms show ?thesis by auto
  next
    case (Inr b)
    show ?thesis
    proof (cases b)
      case True
      with Inr Cons.prems show ?thesis by simp
    next
      case False
      with Inr Cons.prems Cons.IH show ?thesis
        by (cases "py_insert lt x ys") simp_all
    qed
  qed
qed

lemma py_sort_from_error:
  assumes "\<forall>a b e'. lt a b = Inl e' \<longrightarrow> e' = TypeError"
  shows "py_sort_from lt acc xs = Inl e \<Longrightarrow> e = TypeError"
proof (induction xs arbitrary: acc)
  case Nil
  then show ?case by simp
next
  case (Cons x xs)
  show ?case
  proof (cases "py_insert lt x acc")
    case (Inl e')
    with Cons.prems py_insert_error [OF assms, of x acc e'] show ?thesis by simp
  next
    case (Inr acc')
    with Cons.prems Cons.IH [of acc'] show ?thesis by simp
  qed
qed

lemma sort_tasks_error: "sort_tasks_by_priority s = Inl e \<Longrightarrow> e = TypeError"
proof -
  assume a: "sort_tasks_by_priority s = Inl e"
  let ?lt = "\<lambda>a b. key_lt (sort_key (theap s a)) (sort_key (theap s b))"
  from a have "py_sort_from ?lt [] (tasks s) = Inl e"
    by (cases "py_sort_from ?lt [] (tasks s)") (simp_all add: sort_tasks_by_priority_def py_sorted_def)
  moreover have "\<forall>a b e'. ?lt a b = Inl e' \<longrightarrow> e' = TypeError"
    by (blast dest: key_lt_error)
  ultimately show ?thesis
    by (rule py_sort_from_error [rotated])
qed

subsection \<open>Sorting by a numeric key returns\<close>

lemma py_sorted_reverse_total:
  fixes f :: "'a \<Rightarrow> real"
  shows "\<exists>ys. py_sorted_reverse (\<lambda>x y. float_lt (f x) (f y)) xs = Inr ys \<and> set ys = set xs"
proof (cases "xs = []")
  case True
  then show ?thesis by (simp add: py_sorted_reverse_def py_sorted_def)
next
  case False
  from py_sorted_reverse_float [OF this, of f] obtain ys where
    "py_sorted_reverse (\<lambda>x y. float_lt (f x) (f y)) xs = Inr ys" by blast
  with py_sorted_reverse_set [OF this] show ?thesis by blast
qed

lemma py_map_total:
  "(\<And>x. x \<in> set xs \<Longrightarrow> \<exists>y. f x = Inr y) \<Longrightarrow> \<exists>ys. py_map f xs = Inr ys"
proof (induction xs)
  case Nil
  show ?case by simp
next
  case (Cons x xs)
  from Cons.prems [of x] obtain y where "f x = Inr y" by auto
  moreover from Cons obtain ys where "py_map f xs = Inr ys" by auto
  ultimately show ?case by simp
qed

lemma py_map_covers:
  assumes "py_map f xs = Inr ys" and "x \<in> set xs"
  shows "\<exists>y\<in>set ys. f x = Inr y"
proof -
  from assms(2) obtain i where i: "i < length xs" "xs ! i = x"
    by (auto simp: in_set_conv_nth)
  from py_map_nth [OF assms(1) i(1)] py_map_length [OF assms(1)] i show ?thesis
    by (auto intro!: bexI [of _ "ys ! i"])
qed

subsection \<open>An employee without hours is never eligible\<close>

lemma unassign_untouched:
  "assigned_employee (theap s t) \<noteq> Some a \<Longrightarrow> eheap (unassign t s) a = eheap s a"
  by (auto simp: unassign_def split: option.splits)

lemma unassign_link:
  "assigned_employee (theap (unassign t s) u)
     = (if u = t then None else assigned_employee (theap s u))"
  by (simp add: unassign_def split: option.splits)

lemma fold_unassign_untouched:
  "\<forall>t\<in>set ts. assigned_employee (theap s t) \<noteq> Some a \<Longrightarrow>
   eheap (fold unassign ts s) a = eheap s a"
proof (induction ts arbitrary: s)
  case Nil
  show ?case by simp
next
  case (Cons t ts)
  have "\<forall>u\<in>set ts. assigned_employee (theap (unassign t s) u) \<noteq> Some a"
    using Cons.prems by (simp add: unassign_link)
  from Cons.IH [OF this] Cons.prems show ?case
    by (simp add: unassign_untouched)
qed

lemma idle_begin_pass:
  assumes "\<forall>tr\<in>set (tasks s). \<forall>a. assigned_employee (theap s tr) = Some a
             \<longrightarrow> max_hours (eheap s a) \<noteq> 0"
  shows "idle_if_no_hours (begin_pass s)"
  unfolding idle_if_no_hours_def
proof (intro ballI impI)
  fix er
  assume er: "er \<in> set (employees (begin_pass s))"
    and z: "max_hours (eheap (begin_pass s) er) = 0"
  from frame_begin_pass [of s] er z have er': "er \<in> set (employees s)"
    and z': "max_hours (eheap s er) = 0"
    by (simp_all add: frame_def)
  let ?s1 = "fold reset_employee (employees s) s"
  from assms z' have "\<forall>t\<in>set (tasks s). assigned_employee (theap ?s1 t) \<noteq> Some er"
    by (auto simp: fold_reset_employee_other)
  from fold_unassign_untouched [OF this] er'
  have "current_hours (eheap (reset s) er) = 0"
    by (simp add: reset_def fold_reset_employee_other fold_reset_employee_eheap)
  then show "0 \<le> current_hours (eheap (begin_pass s) er)"
    by (simp add: begin_pass_def)
qed

lemma eligible_has_hours:
  assumes "idle_if_no_hours s" and "0 < duration (theap s tr)"
    and "er \<in> set (get_eligible_employees s tr)"
  shows "max_hours (eheap s er) \<noteq> 0"
proof
  assume z: "max_hours (eheap s er) = 0"
  from assms(3) have "er \<in> set (employees s)"
    and "current_hours (eheap s er) + duration (theap s tr) \<le> max_hours (eheap s er)"
    by (simp_all add: get_eligible_employees_def can_be_assigned_to_def can_work_hours_def)
  with assms(1,2) z show False
    by (auto simp: idle_if_no_hours_def)
qed

lemma select_best_total:
  assumes "elig \<noteq> []" and "\<forall>er\<in>set elig. max_hours (eheap s er) \<noteq> 0"
  shows "\<exists>b\<in>set elig. select_best_employee s tr elig = Inr b"
proof -
  from assms(2)
  have "\<forall>er\<in>set elig. \<exists>x. score_employee_for_task (theap s tr) (eheap s er) = Inr x"
    by (simp add: score_defined)
  then obtain v where
    "\<forall>er\<in>set elig. score_employee_for_task (theap s tr) (eheap s er) = Inr (v er)"
    by (rule bchoice [THEN exE])
  with select_best_first_max [OF assms(1), of s tr v] obtain i where
    "i < length elig" "select_best_employee s tr elig = Inr (elig ! i)"
    by blast
  then show ?thesis by (auto intro!: bexI [of _ "elig ! i"])
qed

lemma idle_assign_to:
  assumes "idle_if_no_hours s" and "max_hours (eheap s b) \<noteq> 0"
  shows "idle_if_no_hours (snd (assign_to s tr b))"
  using assms
  by (auto simp: idle_if_no_hours_def assign_to_def assign_hours_def)

lemma assign_task_total:
  assumes "idle_if_no_hours s" and "0 < duration (theap s tr)"
  shows "\<exists>ok s'. assign_task s tr = Inr (ok, s') \<and> idle_if_no_hours s'"
proof (cases "get_eligible_employees s tr = []")
  case True
  with assms(1) show ?thesis by (auto simp: assign_task_def)
next
  case False
  have nz: "\<forall>er\<in>set (get_eligible_employees s tr). max_hours (eheap s er) \<noteq> 0"
    using eligible_has_hours [OF assms] by blast
  from select_best_total [OF False nz, of tr] obtain b where
    b: "b \<in> set (get_eligible_employees s tr)"
      "select_best_employee s tr (get_eligible_employees s tr) = Inr b"
    by blast
  from b(1) nz have "max_hours (eheap s b) \<noteq> 0" by blast
  from idle_assign_to [OF assms(1) this, of tr] False b(2) show ?thesis
    by (cases "assign_to s tr b") (simp add: assign_task_def)
qed

lemma idle_reasons: "idle_if_no_hours s \<Longrightarrow> idle_if_no_hours (s\<lparr>unassigned_reasons := r\<rparr>)"
  by (simp add: idle_if_no_hours_def)

lemma schedule_loop_total:
  assumes "idle_if_no_hours s" and "\<forall>t\<in>set trs. 0 < duration (theap s t)"
  shows "\<exists>s'. schedule_loop env trs s = Inr s' \<and> idle_if_no_hours s'"
  using assms
proof (induction trs arbitrary: s)
  case Nil
  then show ?case by simp
next
  case (Cons tr trs)
  from Cons.prems have "0 < duration (theap s tr)" by simp
  from assign_task_total [OF Cons.prems(1) this] obtain ok s1 where
    a: "assign_task s tr = Inr (ok, s1)" and i: "idle_if_no_hours s1"
    by blast
  let ?s2 = "if ok then s1 else s1\<lparr>unassigned_reasons := (unassigned_reasons s1)
             (task_id (theap s1 tr) \<mapsto> get_all_unassignment_reasons env s1 tr)\<rparr>"
  from i have i2: "idle_if_no_hours ?s2" by (simp add: idle_reasons)
  have "frame s ?s2"
    using frame_assign_task [OF a] by (simp add: frame_def)
  with Cons.prems(2) have "\<forall>t\<in>set trs. 0 < duration (theap ?s2 t)"
    by (simp add: frame_def)
  from Cons.IH [OF i2 this] a show ?case by simp
qed

subsection \<open>The reports\<close>

lemma workload_entry_total:
  "\<exists>w. workload_entry env s er = Inr w \<and>
       w_employee_id w = emp_id (eheap s er) \<and>
       w_max_hours w = max_hours (eheap s er) \<and>
       w_available_hours w = available_hours (eheap s er) \<and>
       (max_hours (eheap s er) = 0 \<longrightarrow> w_utilization w = 0)"
  by (auto simp: workload_entry_def utilization_def py_div_def Let_def)

lemma workload_report_total:
  assumes "idle_if_no_hours s"
  shows "\<exists>report. get_employee_workload_report env s = Inr report \<and>
           (\<forall>w\<in>set report. w_max_hours w = 0 \<longrightarrow> w_utilization w = 0 \<and> w_available_hours w = 0) \<and>
           (\<forall>er\<in>set (employees s). \<exists>w\<in>set report.
               w_employee_id w = emp_id (eheap s er) \<and> w_max_hours w = max_hours (eheap s er))"
proof -
  have "\<exists>ws. py_map (workload_entry env s) (employees s) = Inr ws"
    by (rule py_map_total) (use workload_entry_total in blast)
  then obtain ws where ws: "py_map (workload_entry env s) (employees s) = Inr ws" ..
  from py_sorted_reverse_total [of w_utilization ws] obtain report where
    r: "py_sorted_reverse (\<lambda>x y. float_lt (w_utilization x) (w_utilization y)) ws = Inr report"
      "set report = set ws"
    by blast
  have one: "\<forall>w\<in>set report. w_max_hours w = 0 \<longrightarrow> w_utilization w = 0 \<and> w_available_hours w = 0"
  proof (intro ballI impI)
    fix w assume "w \<in> set report" and z: "w_max_hours w = 0"
    with r(2) have "w \<in> set ws" by simp
    from py_map_set [OF ws this] obtain er where er: "er \<in> set (employees s)"
      "workload_entry env s er = Inr w"
      by blast
    from workload_entry_total [of env s er] er(2) z
    have "max_hours (eheap s er) = 0" "w_utilization w = 0"
      "w_available_hours w = available_hours (eheap s er)"
      by auto
    moreover from this(1) assms er(1) have "0 \<le> current_hours (eheap s er)"
      by (simp add: idle_if_no_hours_def)
    ultimately show "w_utilization w = 0 \<and> w_available_hours w = 0"
      by (simp add: available_hours_def)
  qed
  have two: "\<forall>er\<in>set (employees s). \<exists>w\<in>set report.
               w_employee_id w = emp_id (eheap s er) \<and> w_max_hours w = max_hours (eheap s er)"
  proof
    fix er assume "er \<in> set (employees s)"
    from py_map_covers [OF ws this] obtain w where "w \<in> set ws" "workload_entry env s er = Inr w"
      by blast
    with workload_entry_total [of env s er] r(2)
    show "\<exists>w\<in>set report. w_employee_id w = emp_id (eheap s er) \<and> w_max_hours w = max_hours (eheap s er)"
      by auto
  qed
  from ws r(1) one two show ?thesis
    by (simp add: get_employee_workload_report_def)
qed

lemma get_statistics_total: "\<exists>stats. get_statistics env s = Inr stats"
  by (simp add: get_statistics_def get_completion_rate_def py_div_def)

text \<open>
  C9. Let every listed task have a positive duration, and let no listed task be linked to an
  employee whose \<^verbatim>\<open>max_hours\<close> is 0 (a fresh input has no links at all). Then
  \<^verbatim>\<open>schedule_all()\<close> either raises the \<^verbatim>\<open>TypeError\<close> of the ordering step or returns, and
  never divides by zero: an employee with \<^verbatim>\<open>max_hours == 0\<close> is never eligible, so never
  scored. After the pass the workload report and the statistics return as well; every entry
  of the report with \<^verbatim>\<open>max_hours\<close> 0 has utilization 0 and 0 available hours, and every
  employee of the roster has an entry.
\<close>

theorem schedule_all_no_division_by_zero:
  assumes "\<forall>tr\<in>set (tasks s). 0 < duration (theap s tr)"
    and "\<forall>tr\<in>set (tasks s). \<forall>a. assigned_employee (theap s tr) = Some a
           \<longrightarrow> max_hours (eheap s a) \<noteq> 0"
  shows "schedule_all env s = Inl TypeError \<or>
         (\<exists>ok s' report stats.
            schedule_all env s = Inr (ok, s') \<and>
            get_employee_workload_report env s' = Inr report \<and>
            get_statistics env s' = Inr stats \<and>
            (\<forall>w\<in>set report. w_max_hours w = 0
               \<longrightarrow> w_utilization w = 0 \<and> w_available_hours w = 0) \<and>
            (\<forall>er\<in>set (employees s'). \<exists>w\<in>set report.
               w_employee_id w = emp_id (eheap s' er) \<and>
               w_max_hours w = max_hours (eheap s' er)))"
proof (cases "sort_tasks_by_priority (begin_pass s)")
  case (Inl e)
  with sort_tasks_error [OF this] show ?thesis
    by (simp add: schedule_all_def)
next
  case (Inr sorted_tasks)
  have "set sorted_tasks = set (tasks (begin_pass s))"
  proof (cases "py_sorted (\<lambda>a b. key_lt (sort_key (theap (begin_pass s) a))
                   (sort_key (theap (begin_pass s) b))) (tasks (begin_pass s))")
    case (Inl e)
    with Inr show ?thesis by (simp add: sort_tasks_by_priority_def)
  next
    case sorted: (Inr ys)
    with Inr have "ys = sorted_tasks" by (simp add: sort_tasks_by_priority_def)
    with py_sorted_mset [OF sorted] show ?thesis by (metis set_mset_mset)
  qed
  with assms(1) frame_begin_pass [of s]
  have d: "\<forall>t\<in>set sorted_tasks. 0 < duration (theap (begin_pass s) t)"
    by (simp add: frame_def)
  from schedule_loop_total [OF idle_begin_pass [OF assms(2)] d, of env] obtain s' where
    loop: "schedule_loop env sorted_tasks (begin_pass s) = Inr s'" and idle: "idle_if_no_hours s'"
    by blast
  from Inr loop have "schedule_all env s = Inr (length (get_unassigned_tasks s') = 0, s')"
    by (simp add: schedule_all_def)
  with workload_report_total [OF idle, of env] get_statistics_total [of env s'] show ?thesis
    by blast
qed


lemma with_zed_run:
  "schedule_all plain_env with_zed
     = Inr (True, with_zed\<lparr>eheap := (eheap with_zed)(0 := alice\<lparr>current_hours := 20\<rparr>),
                            theap := (theap with_zed)(0 := api_task\<lparr>assigned_employee := Some 0\<rparr>)\<rparr>)"
  by (simp add: model_defs example_defs with_zed_def zed_def)

theorem schedule_all_no_division_by_zero_witness:
  "tasks with_zed = [0] \<and> 0 < duration (theap with_zed 0) \<and>
   assigned_employee (theap with_zed 0) = None \<and>
   max_hours (eheap with_zed 1) = 0 \<and>
   (\<exists>ok s' report.
      schedule_all plain_env with_zed = Inr (ok, s') \<and>
      get_employee_workload_report plain_env s' = Inr report \<and>
      (\<forall>w\<in>set report. w_max_hours w = 0 \<longrightarrow> w_utilization w = 0 \<and> w_available_hours w = 0) \<and>
      (\<exists>w\<in>set report. w_employee_id w = 3 \<and> w_max_hours w = 0))"
proof -
  have a: "\<forall>tr\<in>set (tasks with_zed). 0 < duration (theap with_zed tr)"
    by (simp add: with_zed_def api_task_def)
  have b: "\<forall>tr\<in>set (tasks with_zed). \<forall>a. assigned_employee (theap with_zed tr) = Some a
             \<longrightarrow> max_hours (eheap with_zed a) \<noteq> 0"
    by (simp add: with_zed_def api_task_def)
  have z: "tasks with_zed = [0]" "0 < duration (theap with_zed 0)"
    "assigned_employee (theap with_zed 0) = None" "max_hours (eheap with_zed 1) = 0"
    by (simp_all add: with_zed_def zed_def api_task_def)
  let ?s = "with_zed\<lparr>eheap := (eheap with_zed)(0 := alice\<lparr>current_hours := 20\<rparr>),
                      theap := (theap with_zed)(0 := api_task\<lparr>assigned_employee := Some 0\<rparr>)\<rparr>"
  from schedule_all_no_division_by_zero [OF a b, of plain_env] obtain report where
    r: "get_employee_workload_report plain_env ?s = Inr report"
      "\<forall>w\<in>set report. w_max_hours w = 0 \<longrightarrow> w_utilization w = 0 \<and> w_available_hours w = 0"
      "\<forall>er\<in>set (employees ?s). \<exists>w\<in>set report.
         w_employee_id w = emp_id (eheap ?s er) \<and> w_max_hours w = max_hours (eheap ?s er)"
    unfolding with_zed_run by auto
  from r(3) have "\<exists>w\<in>set report. w_employee_id w = 3 \<and> w_max_hours w = 0"
    by (simp add: with_zed_def zed_def)
  with z r(1,2) with_zed_run show ?thesis by blast
qed

section \<open>Repeating the pass\<close>

subsection \<open>What reset does to a state without links\<close>

lemma fold_reset_employee_eq:
  "fold reset_employee es s
     = s\<lparr>eheap := (\<lambda>a. if a \<in> set es then (eheap s a)\<lparr>current_hours := 0\<rparr> else eheap s a)\<rparr>"
  by (rule state.equality)
    (simp_all add: fold_reset_employee_other fold_reset_employee_eheap fun_eq_iff)

lemma fold_unassign_unlinked:
  "\<forall>t\<in>set ts. assigned_employee (theap s t) = None \<Longrightarrow> fold unassign ts s = s"
  by (induction ts) (simp_all add: unassign_def)

lemma unlink_idle:
  fixes t :: Task
  shows "assigned_employee t = None \<Longrightarrow> t\<lparr>assigned_employee := None\<rparr> = t"
  by (cases t) simp

lemma begin_pass_unlinked:
  assumes "unlinked s"
  shows "begin_pass s = wiped s"
proof -
  let ?s1 = "fold reset_employee (employees s) s"
  from assms have "\<forall>t\<in>set (tasks s). assigned_employee (theap ?s1 t) = None"
    by (simp add: unlinked_def fold_reset_employee_other)
  then have "reset s = ?s1"
    by (simp add: reset_def fold_unassign_unlinked)
  moreover from assms
  have "(\<lambda>t. if t \<in> set (tasks s) then (theap s t)\<lparr>assigned_employee := None\<rparr> else theap s t)
          = theap s"
    by (auto simp: unlinked_def unlink_idle fun_eq_iff)
  ultimately show ?thesis
    by (simp add: begin_pass_def wiped_def fold_reset_employee_eq)
qed

subsection \<open>Operations that change nothing but hours, links and reasons\<close>

lemma wiped_unassign:
  assumes "t \<in> set (tasks s)" and "links_in_roster s"
  shows "wiped (unassign t s) = wiped s"
proof (cases "assigned_employee (theap s t)")
  case None
  then show ?thesis by (simp add: unassign_def)
next
  case (Some er)
  with assms have "er \<in> set (employees s)"
    by (simp add: links_in_roster_def)
  with Some assms(1) show ?thesis
    by (simp add: unassign_def wiped_def fun_eq_iff)
qed

lemma links_in_roster_unassign: "links_in_roster s \<Longrightarrow> links_in_roster (unassign t s)"
  using frame_unassign [of s t] by (simp add: links_in_roster_def unassign_link frame_def)

lemma wiped_fold_unassign:
  "set ts \<subseteq> set (tasks s) \<Longrightarrow> links_in_roster s \<Longrightarrow>
   wiped (fold unassign ts s) = wiped s \<and> links_in_roster (fold unassign ts s)"
proof (induction ts arbitrary: s)
  case Nil
  then show ?case by simp
next
  case (Cons t ts)
  from Cons.prems have t: "t \<in> set (tasks s)" by simp
  have "set ts \<subseteq> set (tasks (unassign t s))"
    using Cons.prems(1) frame_unassign [of s t] by (simp add: frame_def)
  from Cons.IH [OF this links_in_roster_unassign [OF Cons.prems(2)]]
    wiped_unassign [OF t Cons.prems(2)]
  show ?case by simp
qed

lemma fold_unassign_link:
  "assigned_employee (theap (fold unassign ts s) u)
     = (if u \<in> set ts then None else assigned_employee (theap s u))"
  by (induction ts arbitrary: s) (simp_all add: unassign_link)

lemma wiped_fold_reset_employee:
  "wiped (fold reset_employee (employees s) s) = wiped s"
  by (simp add: fold_reset_employee_eq wiped_def fun_eq_iff)

lemma reset_wiped:
  assumes "links_in_roster s"
  shows "unlinked (reset s) \<and> wiped (reset s) = wiped s"
proof -
  let ?s1 = "fold reset_employee (employees s) s"
  have l: "links_in_roster ?s1"
    using assms by (simp add: links_in_roster_def fold_reset_employee_other)
  have "set (tasks s) \<subseteq> set (tasks ?s1)"
    by (simp add: fold_reset_employee_other)
  from wiped_fold_unassign [OF this l] have "wiped (reset s) = wiped s"
    by (simp add: reset_def wiped_fold_reset_employee)
  moreover have "unlinked (reset s)"
    using frame_reset [of s] by (simp add: unlinked_def frame_def) (simp add: reset_def fold_unassign_link)
  ultimately show ?thesis by simp
qed

lemma wiped_assign_to:
  assumes "tr \<in> set (tasks s)" and "b \<in> set (employees s)" and "links_in_roster s"
  shows "wiped (snd (assign_to s tr b)) = wiped s \<and> links_in_roster (snd (assign_to s tr b))"
  using assms
  by (simp add: assign_to_def assign_hours_def wiped_def links_in_roster_def fun_eq_iff)

lemma wiped_assign_task:
  assumes "tr \<in> set (tasks s)" and "links_in_roster s" and "assign_task s tr = Inr (ok, s')"
  shows "wiped s' = wiped s \<and> links_in_roster s'"
  using assms(3)
proof (rule assign_task_cases)
  assume "s' = s" with assms(2) show ?thesis by simp
next
  fix b assume b: "b \<in> set (get_eligible_employees s tr)" and a: "(ok, s') = assign_to s tr b"
  from b have "b \<in> set (employees s)" by (simp add: get_eligible_employees_def)
  from wiped_assign_to [OF assms(1) this assms(2)] a show ?thesis
    by (metis snd_conv)
qed

lemma wiped_reasons: "wiped (s\<lparr>unassigned_reasons := r\<rparr>) = wiped s"
  by (simp add: wiped_def cong: if_cong)

lemma links_in_roster_reasons:
  "links_in_roster (s\<lparr>unassigned_reasons := r\<rparr>) = links_in_roster s"
  by (simp add: links_in_roster_def)

lemma wiped_loop:
  "set trs \<subseteq> set (tasks s) \<Longrightarrow> links_in_roster s \<Longrightarrow> schedule_loop env trs s = Inr s' \<Longrightarrow>
   wiped s' = wiped s \<and> links_in_roster s'"
proof (induction trs arbitrary: s)
  case Nil
  then show ?case by simp
next
  case (Cons tr trs)
  from Cons.prems(3) obtain ok s1 s2 where a: "assign_task s tr = Inr (ok, s1)"
    and s2: "s2 = (if ok then s1 else s1\<lparr>unassigned_reasons := (unassigned_reasons s1)
             (task_id (theap s1 tr) \<mapsto> get_all_unassignment_reasons env s1 tr)\<rparr>)"
    and l: "schedule_loop env trs s2 = Inr s'"
    by (rule schedule_loop_step)
  from Cons.prems(1) have tr: "tr \<in> set (tasks s)" by simp
  from wiped_assign_task [OF tr Cons.prems(2) a]
  have w: "wiped s2 = wiped s" and k: "links_in_roster s2"
    unfolding s2 by (simp_all add: wiped_reasons links_in_roster_reasons)
  have "frame s s2"
    using frame_assign_task [OF a] unfolding s2 by (simp add: frame_def)
  with Cons.prems(1) have "set trs \<subseteq> set (tasks s2)" by (simp add: frame_def)
  from Cons.IH [OF this k l] w show ?case by simp
qed

lemma sort_tasks_set: "sort_tasks_by_priority s = Inr l \<Longrightarrow> set l = set (tasks s)"
proof -
  assume a: "sort_tasks_by_priority s = Inr l"
  let ?lt = "\<lambda>a b. key_lt (sort_key (theap s a)) (sort_key (theap s b))"
  from a have "py_sorted ?lt (tasks s) = Inr l"
    by (cases "py_sorted ?lt (tasks s)") (simp_all add: sort_tasks_by_priority_def)
  from py_sorted_mset [OF this] show ?thesis by (metis set_mset_mset)
qed

lemma wiped_wiped: "wiped (wiped s) = wiped s"
  by (simp add: wiped_def fun_eq_iff)

lemma links_in_roster_wiped: "links_in_roster (wiped s)"
  by (simp add: links_in_roster_def wiped_def)

text \<open>
  Let no listed task be linked when \<^verbatim>\<open>schedule_all()\<close> is called, as for a roster and a
  task list the caller has just built, and let the call return. Then \<^verbatim>\<open>reset()\<close> followed
  by \<^verbatim>\<open>schedule_all()\<close> starts its pass in exactly the state in which the first pass
  started, and returns the same result and the same final state: the explicit
  \<^verbatim>\<open>reset()\<close> leaves negative hours, but the reset inside \<^verbatim>\<open>schedule_all()\<close> zeroes them
  again, the tasks being unlinked by then.
\<close>

lemma schedule_all_repeatable:
  assumes "\<forall>tr\<in>set (tasks s). assigned_employee (theap s tr) = None"
    and "schedule_all env s = Inr (ok, s1)"
  shows "begin_pass (reset s1) = begin_pass s \<and> schedule_all env (reset s1) = Inr (ok, s1)"
proof -
  from assms(1) have "unlinked s" by (simp add: unlinked_def)
  then have start: "begin_pass s = wiped s" by (rule begin_pass_unlinked)
  from assms(2) obtain sorted_tasks where
    sorted: "sort_tasks_by_priority (begin_pass s) = Inr sorted_tasks"
    and loop: "schedule_loop env sorted_tasks (begin_pass s) = Inr s1"
    by (rule schedule_all_cases)
  from sort_tasks_set [OF sorted] have "set sorted_tasks \<subseteq> set (tasks (wiped s))"
    by (simp add: start)
  from wiped_loop [OF this links_in_roster_wiped] loop
  have w1: "wiped s1 = wiped s" and k1: "links_in_roster s1"
    by (simp_all add: start wiped_wiped)
  from reset_wiped [OF k1] have "unlinked (reset s1)" "wiped (reset s1) = wiped s1"
    by simp_all
  with begin_pass_unlinked [of "reset s1"] w1 start
  have same: "begin_pass (reset s1) = begin_pass s" by simp
  then have "schedule_all env (reset s1) = schedule_all env s"
    by (simp add: schedule_all_def)
  with same assms(2) show ?thesis by simp
qed

lemma schedule_all_repeatable_scenario:
  "tasks scenario = [0] \<and> assigned_employee (theap scenario 0) = None \<and>
   (\<exists>s1. schedule_all plain_env scenario = Inr (True, s1) \<and>
         assigned_employee (theap s1 0) = Some 0 \<and>
         current_hours (eheap s1 0) = 20 \<and>
         schedule_all plain_env (reset s1) = Inr (True, s1))"
proof -
  have a: "\<forall>tr\<in>set (tasks scenario). assigned_employee (theap scenario tr) = None"
    by (simp add: example_defs)
  have b: "tasks scenario = [0]" "assigned_employee (theap scenario 0) = None"
    by (simp_all add: example_defs)
  from schedule_all_repeatable [OF a scenario_run] b scenario_run show ?thesis
    by (intro conjI exI [of _ "scenario\<lparr>eheap := (eheap scenario)(0 := alice\<lparr>current_hours := 20\<rparr>),
                            theap := (theap scenario)(0 := api_task\<lparr>assigned_employee := Some 0\<rparr>)\<rparr>"])
      simp_all
qed

subsection \<open>A first call on tasks that are already linked\<close>

lemmas prelinked_defs = prelinked_def first_half_def second_half_def alice_def plain_env_def

lemma prelinked_first_run:
  "schedule_all plain_env prelinked
     = Inr (True, prelinked\<lparr>eheap := (eheap prelinked)(0 := alice\<lparr>current_hours := 50\<rparr>),
                             theap := (theap prelinked)(0 := first_half,
                               1 := second_half\<lparr>assigned_employee := Some 0\<rparr>)\<rparr>)"
  by (simp add: model_defs prelinked_defs)

text \<open>
  C2. Repeated calls of \<^verbatim>\<open>schedule_all()\<close> with \<^verbatim>\<open>reset()\<close> between them do not always
  produce the same assignment set. When the first task is still linked to the employee at
  the first call, the reset inside \<^verbatim>\<open>schedule_all()\<close> zeroes her hours and then subtracts
  the 50 hours of the linked task, so the pass starts her at \<open>- 50\<close> hours with 80 allowed
  and assigns both tasks of 50 hours. After \<^verbatim>\<open>reset()\<close> the second call starts her at 0
  hours, assigns the first task only and returns \<^verbatim>\<open>False\<close>.
\<close>

theorem schedule_all_differs_after_reset:
  "\<exists>s1 s2. schedule_all plain_env prelinked = Inr (True, s1) \<and>
           assigned_employee (theap s1 0) = Some 0 \<and>
           assigned_employee (theap s1 1) = Some 0 \<and>
           current_hours (eheap s1 0) = 50 \<and>
           schedule_all plain_env (reset s1) = Inr (False, s2) \<and>
           assigned_employee (theap s2 0) = Some 0 \<and>
           assigned_employee (theap s2 1) = None \<and>
           current_hours (eheap s2 0) = 50"
  unfolding prelinked_first_run
  by (simp add: model_defs prelinked_defs)

section \<open>What reset does achieve\<close>

text \<open>After \<^verbatim>\<open>reset()\<close> no listed task is linked, whatever the state before.\<close>

lemma reset_unlinks: "unlinked (reset s)"
  using frame_reset [of s]
  by (simp add: unlinked_def frame_def) (simp add: reset_def fold_unassign_link)

lemma reset_no_assigned_tasks: "get_assigned_tasks (reset s) = []"
  using reset_unlinks [of s]
  by (simp add: get_assigned_tasks_def is_assigned_def unlinked_def)

end
